theory Spec2Isabelle
  imports Complex_Main "HOL-Library.Char_ord" "HOL-Library.List_Lexorder"
begin

section \<open>Strings\<close>

text \<open>
  A JavaScript string is a sequence of UTF-16 code units. The model uses \<^typ>\<open>string\<close>;
  a \<^typ>\<open>char\<close> stands for a code unit below 256 (ASCII and Latin-1), where
  \<^verbatim>\<open>toLowerCase\<close> maps one code unit to one code unit: \<^verbatim>\<open>A..Z\<close> and the
  Latin-1 capitals \<^verbatim>\<open>0xC0..0xDE\<close> (but the multiplication sign \<^verbatim>\<open>0xD7\<close>) move up
  by 32.
\<close>

definition lower_char :: "char \<Rightarrow> char" where
  "lower_char c =
     (let n = (of_char c :: nat)
      in if (65 \<le> n \<and> n \<le> 90) \<or> (192 \<le> n \<and> n \<le> 222 \<and> n \<noteq> 215)
         then char_of (n + 32) else c)"

definition toLowerCase :: "string \<Rightarrow> string" where
  "toLowerCase s = map lower_char s"

text \<open>The regular expression class \<^verbatim>\<open>\s\<close>, below code unit 256: tab, line feed,
  vertical tab, form feed, carriage return, space and the no-break space.\<close>

definition is_space :: "char \<Rightarrow> bool" where
  "is_space c = ((of_char c :: nat) \<in> {9, 10, 11, 12, 13, 32, 160})"

text \<open>\<^verbatim>\<open>s.split(/\s+/)\<close>: the pieces between maximal runs of white space. A string that
  starts or ends with white space yields an empty first or last piece, and the empty
  string yields one empty piece. The first argument is the piece being read (reversed),
  the second says whether the last code unit read belonged to a separator.\<close>

fun split_ws_from :: "string \<Rightarrow> bool \<Rightarrow> string \<Rightarrow> string list" where
  "split_ws_from w sep [] = [rev w]"
| "split_ws_from w sep (c # cs) =
     (if is_space c
      then (if sep then split_ws_from w True cs else rev w # split_ws_from [] True cs)
      else split_ws_from (c # w) False cs)"

definition split_ws :: "string \<Rightarrow> string list" where
  "split_ws s = split_ws_from [] False s"

text \<open>\<^verbatim>\<open>s.split(sep)\<close> for a separator of one code unit.\<close>

fun split_char_from :: "char \<Rightarrow> string \<Rightarrow> string \<Rightarrow> string list" where
  "split_char_from sep w [] = [rev w]"
| "split_char_from sep w (c # cs) =
     (if c = sep then rev w # split_char_from sep [] cs
      else split_char_from sep (c # w) cs)"

definition split_char :: "char \<Rightarrow> string \<Rightarrow> string list" where
  "split_char sep s = split_char_from sep [] s"

text \<open>\<^verbatim>\<open>s.includes(w)\<close>: \<open>w\<close> starts at some position of \<open>s\<close>.\<close>

fun starts_with :: "string \<Rightarrow> string \<Rightarrow> bool" where
  "starts_with s [] = True"
| "starts_with [] (c # w) = False"
| "starts_with (d # s) (c # w) = (d = c \<and> starts_with s w)"

fun str_includes :: "string \<Rightarrow> string \<Rightarrow> bool" where
  "str_includes [] w = starts_with [] w"
| "str_includes (d # s) w = (starts_with (d # s) w \<or> str_includes s w)"

text \<open>The mathematical notion the prose means by "occurs in" / "is a substring of".\<close>

definition occurs_in :: "string \<Rightarrow> string \<Rightarrow> bool" where
  "occurs_in w s = (\<exists>pre post. s = pre @ w @ post)"

section \<open>Email classification (email-monitor.ts)\<close>

definition REJECTION_KEYWORDS :: "string list" where
  "REJECTION_KEYWORDS =
     [''unfortunately'', ''regret to inform'', ''not moving forward'',
      ''decided not to proceed'', ''other candidates'', ''position has been filled'',
      ''not selected'', ''not a fit'', ''pursued other'', ''decided to move forward with'']"

definition INTERVIEW_KEYWORDS :: "string list" where
  "INTERVIEW_KEYWORDS =
     [''schedule an interview'', ''interview invitation'', ''would like to speak'',
      ''set up a call'', ''phone screen'', ''technical interview'', ''on-site interview'',
      ''video interview'', ''meet with'', ''next steps'', ''availability'']"

definition OFFER_KEYWORDS :: "string list" where
  "OFFER_KEYWORDS =
     [''pleased to offer'', ''offer letter'', ''job offer'', ''employment offer'',
      ''compensation package'', ''start date'', ''we would like to extend'']"

datatype EmailResponseType = RespRejection | RespInterview | RespOffer | RespGeneric

record EmailData =
  e_from :: string
  e_subject :: string
  e_body :: string
  e_gmailThreadId :: "string option"
  e_gmailMessageId :: "string option"

text \<open>\<^verbatim>\<open>classifyEmailResponse\<close>: the content is the template string
  \<^verbatim>\<open>`${email.subject} ${email.body}`\<close>, lower-cased; \<^verbatim>\<open>KEYWORDS.some(kw => content.includes(kw))\<close>
  is \<^const>\<open>list_ex\<close>.\<close>

definition classifyEmailResponse :: "EmailData \<Rightarrow> EmailResponseType" where
  "classifyEmailResponse email =
     (let content = toLowerCase (e_subject email @ '' '' @ e_body email)
      in if list_ex (\<lambda>kw. str_includes content kw) OFFER_KEYWORDS then RespOffer
         else if list_ex (\<lambda>kw. str_includes content kw) INTERVIEW_KEYWORDS then RespInterview
         else if list_ex (\<lambda>kw. str_includes content kw) REJECTION_KEYWORDS then RespRejection
         else RespGeneric)"

section \<open>The entity store (db/schema.ts, db/store.ts)\<close>

datatype JobSource = Indeed | Linkedin | Greenhouse | Lever | Custom

datatype JobStatus = J_new | J_reviewing | J_approved | J_rejected | J_applied | J_archived

datatype ApplicationStatus =
  A_pending | A_submitted | A_viewed | A_rejected | A_interview | A_offer | A_withdrawn | A_closed

datatype EmailThreadStatus = T_active | T_awaiting_response | T_responded | T_closed

datatype FileType = Pdf | Docx | Txt

text \<open>
  One record per table; the fields are the columns of \<^verbatim>\<open>ensureJobApplicationSchema\<close>, named
  as the domain types name them. \<^verbatim>\<open>rowToJob\<close>, \<^verbatim>\<open>rowToApplication\<close>,
  \<^verbatim>\<open>rowToEmailThread\<close> and \<^verbatim>\<open>rowToResume\<close> only rename columns and turn
  \<^verbatim>\<open>null\<close> into \<^verbatim>\<open>undefined\<close> (both are \<^const>\<open>None\<close> here), so a row and its
  domain object are one value. Sub-objects that the store serialises with
  \<^verbatim>\<open>JSON.stringify\<close> (requirements, tech stack, answers, metadata, parsed data) are kept as
  the text they are stored as. The column \<^verbatim>\<open>is_default\<close> holds 0 or 1 and is read back as
  \<^verbatim>\<open>row.is_default === 1\<close>; it is the boolean \<open>r_isDefault\<close>. Timestamps are
  \<^verbatim>\<open>Date.now()\<close> values: milliseconds since the epoch.
\<close>

record Job =
  j_id :: string
  j_externalId :: "string option"
  j_source :: JobSource
  j_company :: string
  j_title :: string
  j_location :: "string option"
  j_salaryMin :: "int option"
  j_salaryMax :: "int option"
  j_salaryCurrency :: "string option"
  j_description :: "string option"
  j_requirements :: "string option"
  j_techStack :: "string option"
  j_url :: string
  j_postedAt :: "int option"
  j_discoveredAt :: int
  j_status :: JobStatus
  j_metadata :: "string option"

record Application =
  a_id :: string
  a_jobId :: string
  a_status :: ApplicationStatus
  a_appliedAt :: "int option"
  a_resumeId :: "string option"
  a_coverLetter :: "string option"
  a_answers :: "string option"
  a_notes :: "string option"
  a_lastActivityAt :: int
  a_createdAt :: int
  a_updatedAt :: int

record EmailThread =
  t_id :: string
  t_applicationId :: string
  t_gmailThreadId :: "string option"
  t_subject :: string
  t_fromEmail :: string
  t_lastMessageAt :: int
  t_status :: EmailThreadStatus
  t_messageCount :: int
  t_metadata :: "string option"

record Resume =
  r_id :: string
  r_name :: string
  r_filePath :: string
  r_fileType :: FileType
  r_parsedData :: "string option"
  r_isDefault :: bool
  r_createdAt :: int
  r_updatedAt :: int

record ApplicationHistory =
  h_id :: string
  h_applicationId :: string
  h_oldStatus :: "ApplicationStatus option"
  h_newStatus :: ApplicationStatus
  h_changedAt :: int
  h_notes :: "string option"

text \<open>The database: each table is the list of its rows in insertion order. The table
  \<^verbatim>\<open>preferences\<close> is never read or written by the store and is left out.\<close>

record store =
  jobs :: "Job list"
  applications :: "Application list"
  email_threads :: "EmailThread list"
  resumes :: "Resume list"
  application_history :: "ApplicationHistory list"

definition empty_store :: store where
  "empty_store =
     \<lparr>jobs = [], applications = [], email_threads = [], resumes = [], application_history = []\<rparr>"

text \<open>
  A statement that SQLite rejects raises an exception in the caller; the statements the
  same call ran before it stay in effect (the store opens no transaction). Every \<^verbatim>\<open>id\<close>
  column is a \<^verbatim>\<open>PRIMARY KEY\<close>, and \<^verbatim>\<open>node:sqlite\<close> enforces the \<^verbatim>\<open>REFERENCES\<close>
  clauses of the schema. The identifiers that \<^verbatim>\<open>randomUUID()\<close> draws and the clock
  values that \<^verbatim>\<open>Date.now()\<close> reads are arguments of the model, after the arguments of
  the source.
\<close>

datatype StorageError = PrimaryKeyViolation | ForeignKeyViolation

text \<open>\<^verbatim>\<open>UPDATE t SET ... WHERE ...\<close>: every row that the condition selects is
  rewritten in place.\<close>

definition sql_update :: "('a \<Rightarrow> bool) \<Rightarrow> ('a \<Rightarrow> 'a) \<Rightarrow> 'a list \<Rightarrow> 'a list" where
  "sql_update P f rows = map (\<lambda>r. if P r then f r else r) rows"

subsection \<open>Jobs\<close>

definition createJob :: "Job \<Rightarrow> string \<Rightarrow> int \<Rightarrow> store \<Rightarrow> (StorageError + Job) \<times> store" where
  "createJob job ident now s =
     (let fullJob = job\<lparr>j_id := ident, j_discoveredAt := now, j_status := J_new\<rparr>;
          row = fullJob\<lparr>j_salaryCurrency :=
                  Some (case j_salaryCurrency fullJob of None \<Rightarrow> ''USD'' | Some c \<Rightarrow> c)\<rparr>
      in if ident \<in> set (map j_id (jobs s)) then (Inl PrimaryKeyViolation, s)
         else (Inr fullJob, s\<lparr>jobs := jobs s @ [row]\<rparr>))"

definition getJob :: "string \<Rightarrow> store \<Rightarrow> Job option" where
  "getJob ident s = find (\<lambda>j. j_id j = ident) (jobs s)"

definition updateJobStatus :: "string \<Rightarrow> JobStatus \<Rightarrow> store \<Rightarrow> store" where
  "updateJobStatus ident status s =
     s\<lparr>jobs := sql_update (\<lambda>j. j_id j = ident) (\<lambda>j. j\<lparr>j_status := status\<rparr>) (jobs s)\<rparr>"

record JobUpdates =
  ju_status :: "JobStatus option"
  ju_description :: "string option"
  ju_requirements :: "string option"
  ju_techStack :: "string option"
  ju_metadata :: "string option"

definition updateJob :: "string \<Rightarrow> JobUpdates \<Rightarrow> store \<Rightarrow> store" where
  "updateJob ident updates s =
     s\<lparr>jobs := sql_update (\<lambda>j. j_id j = ident)
         (\<lambda>j. j\<lparr>j_status := (case ju_status updates of Some v \<Rightarrow> v | None \<Rightarrow> j_status j),
                j_description := (case ju_description updates of Some v \<Rightarrow> Some v
                                  | None \<Rightarrow> j_description j),
                j_requirements := (case ju_requirements updates of Some v \<Rightarrow> Some v
                                   | None \<Rightarrow> j_requirements j),
                j_techStack := (case ju_techStack updates of Some v \<Rightarrow> Some v
                                | None \<Rightarrow> j_techStack j),
                j_metadata := (case ju_metadata updates of Some v \<Rightarrow> Some v
                               | None \<Rightarrow> j_metadata j)\<rparr>)
         (jobs s)\<rparr>"

subsection \<open>Applications\<close>

record ApplicationParams =
  ap_jobId :: string
  ap_resumeId :: "string option"
  ap_coverLetter :: "string option"
  ap_answers :: "string option"
  ap_notes :: "string option"

definition createApplication ::
  "ApplicationParams \<Rightarrow> string \<Rightarrow> int \<Rightarrow> store \<Rightarrow> (StorageError + Application) \<times> store" where
  "createApplication params ident now s =
     (let application =
            \<lparr>a_id = ident, a_jobId = ap_jobId params, a_status = A_pending, a_appliedAt = None,
             a_resumeId = ap_resumeId params, a_coverLetter = ap_coverLetter params,
             a_answers = ap_answers params, a_notes = ap_notes params,
             a_lastActivityAt = now, a_createdAt = now, a_updatedAt = now\<rparr>
      in if ident \<in> set (map a_id (applications s)) then (Inl PrimaryKeyViolation, s)
         else if ap_jobId params \<notin> set (map j_id (jobs s)) then (Inl ForeignKeyViolation, s)
         else (Inr application, s\<lparr>applications := applications s @ [application]\<rparr>))"

definition getApplication :: "string \<Rightarrow> store \<Rightarrow> Application option" where
  "getApplication ident s = find (\<lambda>a. a_id a = ident) (applications s)"

definition getApplicationByJobId :: "string \<Rightarrow> store \<Rightarrow> Application option" where
  "getApplicationByJobId jobId s = find (\<lambda>a. a_jobId a = jobId) (applications s)"

text \<open>\<^verbatim>\<open>LIMIT ? OFFSET ?\<close>: SQLite reads a negative limit as no limit and a negative
  offset as zero.\<close>

definition sql_limit_offset :: "int \<Rightarrow> int \<Rightarrow> 'a list \<Rightarrow> 'a list" where
  "sql_limit_offset limit offset rows =
     (let rest = drop (nat offset) rows
      in if limit < 0 then rest else take (nat limit) rest)"

record ListApplicationsParams =
  la_status :: "ApplicationStatus option"
  la_limit :: "int option"
  la_offset :: "int option"

text \<open>\<^verbatim>\<open>ORDER BY updated_at DESC\<close> is a sort on the negated key. Rows with the same
  \<^verbatim>\<open>updated_at\<close> stay in table order here; SQLite leaves their order open.\<close>

definition listApplications :: "ListApplicationsParams \<Rightarrow> store \<Rightarrow> Application list" where
  "listApplications params s =
     (let rows = (case la_status params of
                    Some st \<Rightarrow> filter (\<lambda>a. a_status a = st) (applications s)
                  | None \<Rightarrow> applications s);
          limit = (case la_limit params of Some l \<Rightarrow> l | None \<Rightarrow> 100);
          offset = (case la_offset params of Some off \<Rightarrow> off | None \<Rightarrow> 0)
      in sql_limit_offset limit offset (sort_key (\<lambda>a. - a_updatedAt a) rows))"

text \<open>\<^verbatim>\<open>COALESCE(applied_at, ?)\<close>.\<close>

definition coalesce :: "'a option \<Rightarrow> 'a option \<Rightarrow> 'a option" where
  "coalesce x y = (case x of Some v \<Rightarrow> Some v | None \<Rightarrow> y)"

definition insertHistory :: "ApplicationHistory \<Rightarrow> store \<Rightarrow> (StorageError + unit) \<times> store" where
  "insertHistory h s =
     (if h_id h \<in> set (map h_id (application_history s)) then (Inl PrimaryKeyViolation, s)
      else if h_applicationId h \<notin> set (map a_id (applications s))
      then (Inl ForeignKeyViolation, s)
      else (Inr (), s\<lparr>application_history := application_history s @ [h]\<rparr>))"

text \<open>The \<^verbatim>\<open>SET\<close> clause of the \<^verbatim>\<open>UPDATE applications\<close> statement; its last
  parameter is \<^verbatim>\<open>status === "submitted" ? now : null\<close>.\<close>

definition set_status_row :: "ApplicationStatus \<Rightarrow> int \<Rightarrow> Application \<Rightarrow> Application" where
  "set_status_row status now a =
     a\<lparr>a_status := status, a_lastActivityAt := now, a_updatedAt := now,
       a_appliedAt := coalesce (a_appliedAt a) (if status = A_submitted then Some now else None)\<rparr>"

definition updateApplicationStatus ::
  "string \<Rightarrow> ApplicationStatus \<Rightarrow> string option \<Rightarrow> string \<Rightarrow> int \<Rightarrow> store
     \<Rightarrow> (StorageError + unit) \<times> store" where
  "updateApplicationStatus ident status notes historyId now s =
     (case getApplication ident s of
        None \<Rightarrow> (Inr (), s)
      | Some app \<Rightarrow>
          let s1 = s\<lparr>applications := sql_update (\<lambda>a. a_id a = ident)
                      (set_status_row status now) (applications s)\<rparr>
          in insertHistory
               \<lparr>h_id = historyId, h_applicationId = ident, h_oldStatus = Some (a_status app),
                h_newStatus = status, h_changedAt = now, h_notes = notes\<rparr> s1)"

subsection \<open>Email threads\<close>

record EmailThreadParams =
  tp_applicationId :: string
  tp_gmailThreadId :: "string option"
  tp_subject :: string
  tp_fromEmail :: string

definition createEmailThread ::
  "EmailThreadParams \<Rightarrow> string \<Rightarrow> int \<Rightarrow> store \<Rightarrow> (StorageError + EmailThread) \<times> store" where
  "createEmailThread params ident now s =
     (let thread =
            \<lparr>t_id = ident, t_applicationId = tp_applicationId params,
             t_gmailThreadId = tp_gmailThreadId params, t_subject = tp_subject params,
             t_fromEmail = tp_fromEmail params, t_lastMessageAt = now, t_status = T_active,
             t_messageCount = 1, t_metadata = None\<rparr>
      in if ident \<in> set (map t_id (email_threads s)) then (Inl PrimaryKeyViolation, s)
         else if tp_applicationId params \<notin> set (map a_id (applications s))
         then (Inl ForeignKeyViolation, s)
         else (Inr thread, s\<lparr>email_threads := email_threads s @ [thread]\<rparr>))"

definition getEmailThreadByGmailId :: "string \<Rightarrow> store \<Rightarrow> EmailThread option" where
  "getEmailThreadByGmailId gmailThreadId s =
     find (\<lambda>t. t_gmailThreadId t = Some gmailThreadId) (email_threads s)"

record EmailThreadUpdates =
  tu_status :: "EmailThreadStatus option"
  tu_messageCount :: "int option"
  tu_lastMessageAt :: "int option"

definition updateEmailThread :: "string \<Rightarrow> EmailThreadUpdates \<Rightarrow> store \<Rightarrow> store" where
  "updateEmailThread ident updates s =
     s\<lparr>email_threads := sql_update (\<lambda>t. t_id t = ident)
         (\<lambda>t. t\<lparr>t_status := (case tu_status updates of Some v \<Rightarrow> v | None \<Rightarrow> t_status t),
                t_messageCount := (case tu_messageCount updates of Some v \<Rightarrow> v
                                   | None \<Rightarrow> t_messageCount t),
                t_lastMessageAt := (case tu_lastMessageAt updates of Some v \<Rightarrow> v
                                    | None \<Rightarrow> t_lastMessageAt t)\<rparr>)
         (email_threads s)\<rparr>"

subsection \<open>Resumes\<close>

record ResumeParams =
  rp_name :: string
  rp_filePath :: string
  rp_fileType :: FileType
  rp_parsedData :: "string option"
  rp_isDefault :: "bool option"

text \<open>\<^verbatim>\<open>UPDATE resumes SET is_default = 0\<close>.\<close>

definition clearDefaults :: "store \<Rightarrow> store" where
  "clearDefaults s =
     s\<lparr>resumes := sql_update (\<lambda>r. True) (\<lambda>r. r\<lparr>r_isDefault := False\<rparr>) (resumes s)\<rparr>"

definition createResume ::
  "ResumeParams \<Rightarrow> string \<Rightarrow> int \<Rightarrow> store \<Rightarrow> (StorageError + Resume) \<times> store" where
  "createResume params ident now s =
     (let s1 = (if rp_isDefault params = Some True then clearDefaults s else s);
          resume =
            \<lparr>r_id = ident, r_name = rp_name params, r_filePath = rp_filePath params,
             r_fileType = rp_fileType params, r_parsedData = rp_parsedData params,
             r_isDefault = (case rp_isDefault params of Some b \<Rightarrow> b | None \<Rightarrow> False),
             r_createdAt = now, r_updatedAt = now\<rparr>
      in if ident \<in> set (map r_id (resumes s1)) then (Inl PrimaryKeyViolation, s1)
         else (Inr resume, s1\<lparr>resumes := resumes s1 @ [resume]\<rparr>))"

definition getResume :: "string \<Rightarrow> store \<Rightarrow> Resume option" where
  "getResume ident s = find (\<lambda>r. r_id r = ident) (resumes s)"

definition getDefaultResume :: "store \<Rightarrow> Resume option" where
  "getDefaultResume s = find (\<lambda>r. r_isDefault r) (resumes s)"

definition setDefaultResume :: "string \<Rightarrow> store \<Rightarrow> store" where
  "setDefaultResume ident s =
     (let s1 = clearDefaults s
      in s1\<lparr>resumes := sql_update (\<lambda>r. r_id r = ident) (\<lambda>r. r\<lparr>r_isDefault := True\<rparr>)
                          (resumes s1)\<rparr>)"

definition deleteResume :: "string \<Rightarrow> store \<Rightarrow> store" where
  "deleteResume ident s = s\<lparr>resumes := filter (\<lambda>r. r_id r \<noteq> ident) (resumes s)\<rparr>"

subsection \<open>Statistics\<close>

record JobStats =
  totalJobs :: nat
  newJobs :: nat
  appliedJobs :: nat
  pendingApplications :: nat
  interviewsScheduled :: nat
  offersReceived :: nat
  rejections :: nat
  bySource :: "JobSource \<rightharpoonup> nat"
  byStatus :: "JobStatus \<rightharpoonup> nat"
  applicationsByStatus :: "ApplicationStatus \<rightharpoonup> nat"

text \<open>The optional field \<^verbatim>\<open>averageResponseTime\<close> of the type is never set by the store.\<close>

text \<open>\<^verbatim>\<open>SELECT COUNT(*) ... WHERE ...\<close> and \<^verbatim>\<open>SELECT k, COUNT(*) ... GROUP BY k\<close>; a
  group exists only for a key that some row has.\<close>

definition sql_count :: "('a \<Rightarrow> bool) \<Rightarrow> 'a list \<Rightarrow> nat" where
  "sql_count P rows = length (filter P rows)"

definition count_by :: "('a \<Rightarrow> 'k) \<Rightarrow> 'a list \<Rightarrow> ('k \<rightharpoonup> nat)" where
  "count_by key rows =
     (\<lambda>k. if sql_count (\<lambda>r. key r = k) rows = 0 then None
          else Some (sql_count (\<lambda>r. key r = k) rows))"

definition getStats :: "store \<Rightarrow> JobStats" where
  "getStats s =
     \<lparr>totalJobs = sql_count (\<lambda>j. True) (jobs s),
      newJobs = sql_count (\<lambda>j. j_status j = J_new) (jobs s),
      appliedJobs = sql_count (\<lambda>j. j_status j = J_applied) (jobs s),
      pendingApplications = sql_count (\<lambda>a. a_status a = A_pending) (applications s),
      interviewsScheduled = sql_count (\<lambda>a. a_status a = A_interview) (applications s),
      offersReceived = sql_count (\<lambda>a. a_status a = A_offer) (applications s),
      rejections = sql_count (\<lambda>a. a_status a = A_rejected) (applications s),
      bySource = count_by j_source (jobs s),
      byStatus = count_by j_status (jobs s),
      applicationsByStatus = count_by a_status (applications s)\<rparr>"

text \<open>
  \<^verbatim>\<open>formatStats\<close> (tools/job-track.ts) prints the counters and, under the guard
  \<^verbatim>\<open>stats.appliedJobs > 0\<close>, the response rate
  \<^verbatim>\<open>((interviewsScheduled + offersReceived + rejections) / appliedJobs) * 100\<close>. The model
  is the number before \<^verbatim>\<open>toFixed(1)\<close> formats it, as an exact rational; \<^const>\<open>None\<close>
  when the line is not printed.
\<close>

definition responseRate :: "JobStats \<Rightarrow> rat option" where
  "responseRate stats =
     (if appliedJobs stats > 0
      then Some ((of_nat (interviewsScheduled stats + offersReceived stats + rejections stats)
                  / of_nat (appliedJobs stats)) * 100)
      else None)"

subsection \<open>Timeline\<close>

text \<open>
  \<^verbatim>\<open>date(ts / 1000, 'unixepoch')\<close>. The division of two SQL integers truncates towards
  zero; \<^verbatim>\<open>date\<close> renders the UTC calendar day of a count of seconds as
  \<^verbatim>\<open>YYYY-MM-DD\<close> in the proleptic Gregorian calendar (years 0000 to 9999, which every
  \<^verbatim>\<open>Date.now()\<close> value falls in). The day is computed from the count of days since
  1970-01-01 in 400-year eras that start on a first of March.
\<close>

definition sql_div :: "int \<Rightarrow> int \<Rightarrow> int" where
  "sql_div a b = (if (a < 0) = (b < 0) then \<bar>a\<bar> div \<bar>b\<bar> else - (\<bar>a\<bar> div \<bar>b\<bar>))"

definition civil_from_days :: "int \<Rightarrow> int \<times> int \<times> int" where
  "civil_from_days z0 =
     (let z = z0 + 719468;
          era = z div 146097;
          doe = z - era * 146097;
          yoe = (doe - doe div 1460 + doe div 36524 - doe div 146096) div 365;
          doy = doe - (365 * yoe + yoe div 4 - yoe div 100);
          mp = (5 * doy + 2) div 153;
          d = doy - (153 * mp + 2) div 5 + 1;
          m = (if mp < 10 then mp + 3 else mp - 9);
          y = yoe + era * 400 + (if m \<le> 2 then 1 else 0)
      in (y, m, d))"

definition digit_char :: "nat \<Rightarrow> char" where
  "digit_char n = ''0123456789'' ! (n mod 10)"

definition pad2 :: "int \<Rightarrow> string" where
  "pad2 n = [digit_char (nat n div 10), digit_char (nat n)]"

definition pad4 :: "int \<Rightarrow> string" where
  "pad4 n = [digit_char (nat n div 1000), digit_char (nat n div 100),
             digit_char (nat n div 10), digit_char (nat n)]"

definition sql_date :: "int \<Rightarrow> string" where
  "sql_date ts =
     (case civil_from_days (sql_div ts 1000 div 86400) of
        (y, m, d) \<Rightarrow> pad4 y @ ''-'' @ pad2 m @ ''-'' @ pad2 d)"

text \<open>\<^verbatim>\<open>SELECT d AS date, COUNT(*) AS count ... GROUP BY d ORDER BY date\<close> over the dates of
  the selected rows.\<close>

definition group_by_date :: "string list \<Rightarrow> (string \<times> nat) list" where
  "group_by_date ds = map (\<lambda>d. (d, sql_count (\<lambda>x. x = d) ds)) (sort (remdups ds))"

record TimelineEntry =
  tl_date :: string
  jobsDiscovered :: nat
  applicationsSubmitted :: nat
  responsesReceived :: nat

text \<open>A JavaScript \<^verbatim>\<open>Map\<close> keeps its keys in insertion order; \<^verbatim>\<open>set\<close> on a key that
  is present replaces the value in place.\<close>

definition map_set :: "'k \<Rightarrow> 'v \<Rightarrow> ('k \<times> 'v) list \<Rightarrow> ('k \<times> 'v) list" where
  "map_set k v m =
     (case map_of m k of
        None \<Rightarrow> m @ [(k, v)]
      | Some _ \<Rightarrow> map (\<lambda>kv. if fst kv = k then (k, v) else kv) m)"

definition add_jobs_row ::
  "(string \<times> TimelineEntry) list \<Rightarrow> string \<times> nat \<Rightarrow> (string \<times> TimelineEntry) list" where
  "add_jobs_row timeline row =
     map_set (fst row)
       \<lparr>tl_date = fst row, jobsDiscovered = snd row, applicationsSubmitted = 0,
        responsesReceived = 0\<rparr> timeline"

definition add_apps_row ::
  "(string \<times> TimelineEntry) list \<Rightarrow> string \<times> nat \<Rightarrow> (string \<times> TimelineEntry) list" where
  "add_apps_row timeline row =
     (case map_of timeline (fst row) of
        Some existing \<Rightarrow> map_set (fst row) (existing\<lparr>applicationsSubmitted := snd row\<rparr>) timeline
      | None \<Rightarrow>
          map_set (fst row)
            \<lparr>tl_date = fst row, jobsDiscovered = 0, applicationsSubmitted = snd row,
             responsesReceived = 0\<rparr> timeline)"

text \<open>\<^verbatim>\<open>getTimeline(days = 30)\<close>. The final \<^verbatim>\<open>sort\<close> compares dates with
  \<^verbatim>\<open>localeCompare\<close>, which on strings of the shape \<^verbatim>\<open>YYYY-MM-DD\<close> is the
  lexicographic order of their code units; the sort is stable.\<close>

definition jobsPerDay :: "int \<Rightarrow> store \<Rightarrow> (string \<times> nat) list" where
  "jobsPerDay startTime s =
     group_by_date (map (\<lambda>j. sql_date (j_discoveredAt j))
       (filter (\<lambda>j. j_discoveredAt j \<ge> startTime) (jobs s)))"

definition appsPerDay :: "int \<Rightarrow> store \<Rightarrow> (string \<times> nat) list" where
  "appsPerDay startTime s =
     group_by_date (map sql_date
       (filter (\<lambda>t. t \<ge> startTime) (List.map_filter a_appliedAt (applications s))))"

definition getTimeline :: "int option \<Rightarrow> int \<Rightarrow> store \<Rightarrow> TimelineEntry list" where
  "getTimeline days_arg now s =
     (let days = (case days_arg of Some d \<Rightarrow> d | None \<Rightarrow> 30);
          startTime = now - days * 24 * 60 * 60 * 1000;
          timeline1 = foldl add_jobs_row [] (jobsPerDay startTime s);
          timeline2 = foldl add_apps_row timeline1 (appsPerDay startTime s)
      in sort_key tl_date (map snd timeline2))"

section \<open>Matching and processing an inbound email (email-monitor.ts)\<close>

record MatchResult =
  m_applicationId :: string
  m_jobId :: string
  m_currentStatus :: ApplicationStatus

text \<open>\<^verbatim>\<open>fromLower.split("@")[1]?.split(".")[0]\<close>: \<^verbatim>\<open>undefined\<close> (here \<^const>\<open>None\<close>)
  when the address has no \<^verbatim>\<open>@\<close>.\<close>

definition senderDomainOf :: "string \<Rightarrow> string option" where
  "senderDomainOf fromLower =
     (case split_char (CHR ''@'') fromLower of
        _ # d # _ \<Rightarrow> (case split_char (CHR ''.'') d of x # _ \<Rightarrow> Some x | [] \<Rightarrow> None)
      | _ \<Rightarrow> None)"

text \<open>The body of the loop of \<^verbatim>\<open>matchEmailToApplication\<close> for one job:
  \<^verbatim>\<open>matchesSender || matchesSubject\<close>.\<close>

definition matchesJob :: "Job \<Rightarrow> EmailData \<Rightarrow> bool" where
  "matchesJob job email =
     (let companyLower = toLowerCase (j_company job);
          fromLower = toLowerCase (e_from email);
          subjectLower = toLowerCase (e_subject email);
          senderDomain = senderDomainOf fromLower;
          companyWords = split_ws companyLower;
          matchesSender = list_ex (\<lambda>word. length word > 3 \<and>
              (str_includes fromLower word \<or>
               (case senderDomain of None \<Rightarrow> False | Some d \<Rightarrow> str_includes d word)))
            companyWords;
          matchesSubject = list_ex (\<lambda>word. length word > 3 \<and> str_includes subjectLower word)
            companyWords
      in matchesSender \<or> matchesSubject)"

fun matchLoop :: "store \<Rightarrow> EmailData \<Rightarrow> Application list \<Rightarrow> MatchResult option" where
  "matchLoop s email [] = None"
| "matchLoop s email (app # apps) =
     (case getJob (a_jobId app) s of
        None \<Rightarrow> matchLoop s email apps
      | Some job \<Rightarrow>
          if matchesJob job email
          then Some \<lparr>m_applicationId = a_id app, m_jobId = a_jobId app,
                 m_currentStatus = a_status app\<rparr>
          else matchLoop s email apps)"

definition matchEmailToApplication :: "store \<Rightarrow> EmailData \<Rightarrow> MatchResult option" where
  "matchEmailToApplication s email =
     (let submittedApps =
            listApplications \<lparr>la_status = Some A_submitted, la_limit = None, la_offset = None\<rparr> s;
          interviewApps =
            listApplications \<lparr>la_status = Some A_interview, la_limit = None, la_offset = None\<rparr> s;
          allApps = submittedApps @ interviewApps
      in matchLoop s email allApps)"

fun responseTypeToStatus :: "EmailResponseType \<Rightarrow> ApplicationStatus \<Rightarrow> ApplicationStatus option" where
  "responseTypeToStatus RespOffer currentStatus = Some A_offer"
| "responseTypeToStatus RespInterview currentStatus =
     (if currentStatus \<noteq> A_interview \<and> currentStatus \<noteq> A_offer then Some A_interview else None)"
| "responseTypeToStatus RespRejection currentStatus = Some A_rejected"
| "responseTypeToStatus RespGeneric currentStatus =
     (if currentStatus = A_submitted then Some A_viewed else None)"

fun responseTypeName :: "EmailResponseType \<Rightarrow> string" where
  "responseTypeName RespRejection = ''rejection''"
| "responseTypeName RespInterview = ''interview''"
| "responseTypeName RespOffer = ''offer''"
| "responseTypeName RespGeneric = ''generic''"

text \<open>
  \<^verbatim>\<open>processEmailNotification\<close>, in the two steps its comments name. \<open>historyId\<close> and
  \<open>now1\<close> are what \<^verbatim>\<open>updateApplicationStatus\<close> draws, \<open>threadId\<close> and \<open>now2\<close> what
  the thread upsert draws. The log lines and the notification (which only logs) change
  nothing and are left out.
\<close>

text \<open>"Update application status based on response type": the update runs under
  \<^verbatim>\<open>newStatus && newStatus !== application.currentStatus\<close>.\<close>

definition updateStatusStep ::
  "MatchResult \<Rightarrow> EmailResponseType \<Rightarrow> string \<Rightarrow> int \<Rightarrow> store \<Rightarrow> (StorageError + unit) \<times> store" where
  "updateStatusStep application responseType historyId now1 s =
     (let newStatus = responseTypeToStatus responseType (m_currentStatus application)
      in case newStatus of
           None \<Rightarrow> (Inr (), s)
         | Some st \<Rightarrow>
             if st \<noteq> m_currentStatus application
             then updateApplicationStatus (m_applicationId application) st
                    (Some (''Email response classified as: '' @ responseTypeName responseType))
                    historyId now1 s
             else (Inr (), s))"

text \<open>"Create or update email thread"; \<^verbatim>\<open>email.gmailThreadId ? ... : null\<close> is false for
  the empty string too.\<close>

definition upsertThreadStep ::
  "MatchResult \<Rightarrow> EmailData \<Rightarrow> EmailResponseType \<Rightarrow> string \<Rightarrow> int \<Rightarrow> store
     \<Rightarrow> (StorageError + unit) \<times> store" where
  "upsertThreadStep application email responseType threadId now2 s =
     (let existingThread =
            (case e_gmailThreadId email of
               None \<Rightarrow> None
             | Some g \<Rightarrow> if g = [] then None else getEmailThreadByGmailId g s)
      in case existingThread of
           Some thread \<Rightarrow>
             (Inr (),
              updateEmailThread (t_id thread)
                \<lparr>tu_status = Some (if responseType = RespInterview
                                    then T_awaiting_response else T_active),
                 tu_messageCount = Some (t_messageCount thread + 1),
                 tu_lastMessageAt = Some now2\<rparr> s)
         | None \<Rightarrow>
             (case createEmailThread
                     \<lparr>tp_applicationId = m_applicationId application,
                      tp_gmailThreadId = e_gmailThreadId email,
                      tp_subject = e_subject email,
                      tp_fromEmail = e_from email\<rparr> threadId now2 s of
                (Inl err, s2) \<Rightarrow> (Inl err, s2)
              | (Inr _, s2) \<Rightarrow> (Inr (), s2)))"

definition processEmailNotification ::
  "EmailData \<Rightarrow> string \<Rightarrow> int \<Rightarrow> string \<Rightarrow> int \<Rightarrow> store \<Rightarrow> (StorageError + unit) \<times> store" where
  "processEmailNotification email historyId now1 threadId now2 s =
     (case matchEmailToApplication s email of
        None \<Rightarrow> (Inr (), s)
      | Some application \<Rightarrow>
          let responseType = classifyEmailResponse email
          in case updateStatusStep application responseType historyId now1 s of
               (Inl err, s1) \<Rightarrow> (Inl err, s1)
             | (Inr _, s1) \<Rightarrow> upsertThreadStep application email responseType threadId now2 s1)"

section \<open>Sequences of store operations\<close>

text \<open>Every operation of the store that writes, with the values it draws. A caller that
  catches the exception of a failed call goes on with the store as the call left it.\<close>

datatype store_op =
    CreateJob Job string int
  | UpdateJobStatus string JobStatus
  | UpdateJob string JobUpdates
  | CreateApplication ApplicationParams string int
  | UpdateApplicationStatus string ApplicationStatus "string option" string int
  | CreateEmailThread EmailThreadParams string int
  | UpdateEmailThread string EmailThreadUpdates
  | CreateResume ResumeParams string int
  | SetDefaultResume string
  | DeleteResume string

fun exec :: "store_op \<Rightarrow> store \<Rightarrow> store" where
  "exec (CreateJob job ident now) s = snd (createJob job ident now s)"
| "exec (UpdateJobStatus ident status) s = updateJobStatus ident status s"
| "exec (UpdateJob ident updates) s = updateJob ident updates s"
| "exec (CreateApplication params ident now) s = snd (createApplication params ident now s)"
| "exec (UpdateApplicationStatus ident status notes historyId now) s =
     snd (updateApplicationStatus ident status notes historyId now s)"
| "exec (CreateEmailThread params ident now) s = snd (createEmailThread params ident now s)"
| "exec (UpdateEmailThread ident updates) s = updateEmailThread ident updates s"
| "exec (CreateResume params ident now) s = snd (createResume params ident now s)"
| "exec (SetDefaultResume ident) s = setDefaultResume ident s"
| "exec (DeleteResume ident) s = deleteResume ident s"

definition run :: "store_op list \<Rightarrow> store \<Rightarrow> store" where
  "run ops s = foldl (\<lambda>st op. exec op st) s ops"

section \<open>The statements of the prose, as definitions\<close>

text \<open>The classification of a lower-cased content as the prose words it: the first of
  offer, interview, rejection that has a keyword occurring in the content, else generic.\<close>

definition classify_content :: "string \<Rightarrow> EmailResponseType" where
  "classify_content content =
     (if \<exists>kw \<in> set OFFER_KEYWORDS. occurs_in kw content then RespOffer
      else if \<exists>kw \<in> set INTERVIEW_KEYWORDS. occurs_in kw content then RespInterview
      else if \<exists>kw \<in> set REJECTION_KEYWORDS. occurs_in kw content then RespRejection
      else RespGeneric)"

text \<open>The transition policy as the prose tabulates it: the status an application has after
  an email of a given classification, from its current status.\<close>

fun transition_policy :: "EmailResponseType \<Rightarrow> ApplicationStatus \<Rightarrow> ApplicationStatus" where
  "transition_policy RespOffer cur = A_offer"
| "transition_policy RespInterview cur =
     (if cur \<noteq> A_interview \<and> cur \<noteq> A_offer then A_interview else cur)"
| "transition_policy RespRejection cur = A_rejected"
| "transition_policy RespGeneric cur = (if cur = A_submitted then A_viewed else cur)"

definition status_of :: "string \<Rightarrow> store \<Rightarrow> ApplicationStatus option" where
  "status_of ident s = map_option a_status (getApplication ident s)"

text \<open>The \<^verbatim>\<open>applied_at\<close> of the application with a given id, and the clock value of
  the first call in a sequence that sets that application to \<^verbatim>\<open>submitted\<close>.\<close>

definition appliedAt_of :: "string \<Rightarrow> store \<Rightarrow> int option" where
  "appliedAt_of ident s = (case getApplication ident s of Some a \<Rightarrow> a_appliedAt a | None \<Rightarrow> None)"

fun first_submitted :: "string \<Rightarrow> store_op list \<Rightarrow> int option" where
  "first_submitted ident [] = None"
| "first_submitted ident (UpdateApplicationStatus i status notes h now # ops) =
     (if i = ident \<and> status = A_submitted then Some now else first_submitted ident ops)"
| "first_submitted ident (_ # ops) = first_submitted ident ops"

text \<open>The invariant of the table \<^verbatim>\<open>resumes\<close>: the primary key is unique and at most one
  row is the default.\<close>

definition resume_inv :: "store \<Rightarrow> bool" where
  "resume_inv s \<longleftrightarrow> distinct (map r_id (resumes s)) \<and> sql_count r_isDefault (resumes s) \<le> 1"

text \<open>The timeline as the prose words it: the window starts \<open>days\<close> days (30 when none
  is given) before now; the dates of the jobs discovered and of the applications
  submitted (those with \<^verbatim>\<open>applied_at\<close> set) in the window; and the entry of a date, with
  the two independent counts.\<close>

definition window_start :: "int option \<Rightarrow> int \<Rightarrow> int" where
  "window_start days_arg now =
     now - (case days_arg of Some d \<Rightarrow> d | None \<Rightarrow> 30) * 24 * 60 * 60 * 1000"

definition job_dates :: "int \<Rightarrow> store \<Rightarrow> string list" where
  "job_dates start s =
     map (\<lambda>j. sql_date (j_discoveredAt j)) (filter (\<lambda>j. start \<le> j_discoveredAt j) (jobs s))"

definition app_dates :: "int \<Rightarrow> store \<Rightarrow> string list" where
  "app_dates start s =
     map sql_date (filter (\<lambda>t. start \<le> t) (List.map_filter a_appliedAt (applications s)))"

definition timeline_entry :: "int \<Rightarrow> store \<Rightarrow> string \<Rightarrow> TimelineEntry" where
  "timeline_entry start s d =
     \<lparr>tl_date = d,
      jobsDiscovered = sql_count (\<lambda>x. x = d) (job_dates start s),
      applicationsSubmitted = sql_count (\<lambda>x. x = d) (app_dates start s),
      responsesReceived = 0\<rparr>"

text \<open>The response rate as the prose words it, over a count of submitted applications.
  The prose allows two counts: the applications whose status is \<^verbatim>\<open>submitted\<close>, and (as in
  the timeline) the applications whose \<^verbatim>\<open>applied_at\<close> is set.\<close>

definition submitted_by_status :: "store \<Rightarrow> nat" where
  "submitted_by_status s = sql_count (\<lambda>a. a_status a = A_submitted) (applications s)"

definition submitted_by_appliedAt :: "store \<Rightarrow> nat" where
  "submitted_by_appliedAt s = sql_count (\<lambda>a. a_appliedAt a \<noteq> None) (applications s)"

definition rate_over :: "nat \<Rightarrow> store \<Rightarrow> rat option" where
  "rate_over submitted s =
     (if submitted = 0 then None
      else Some ((of_nat (sql_count (\<lambda>a. a_status a = A_interview) (applications s)
                          + sql_count (\<lambda>a. a_status a = A_offer) (applications s)
                          + sql_count (\<lambda>a. a_status a = A_rejected) (applications s))
                  / of_nat submitted) * 100))"

text \<open>Matching as the prose words it: some word of the company name, longer than 3
  characters, is a case-insensitive substring of the domain fragment of the sender, of
  the sender address or of the subject.\<close>

definition ci_occurs :: "string \<Rightarrow> string \<Rightarrow> bool" where
  "ci_occurs w t = occurs_in (toLowerCase w) (toLowerCase t)"

definition company_matches :: "string \<Rightarrow> EmailData \<Rightarrow> bool" where
  "company_matches company email \<longleftrightarrow>
     (\<exists>w \<in> set (split_ws company). length w > 3 \<and>
        ((case senderDomainOf (e_from email) of None \<Rightarrow> False | Some d \<Rightarrow> ci_occurs w d)
         \<or> ci_occurs w (e_from email) \<or> ci_occurs w (e_subject email)))"

section \<open>Example data\<close>

definition job_input :: "string \<Rightarrow> Job" where
  "job_input company =
     \<lparr>j_id = [], j_externalId = None, j_source = Indeed, j_company = company,
      j_title = ''Software Engineer'', j_location = None, j_salaryMin = None,
      j_salaryMax = None, j_salaryCurrency = None, j_description = None,
      j_requirements = None, j_techStack = None, j_url = ''https://example.com/job'',
      j_postedAt = None, j_discoveredAt = 0, j_status = J_new, j_metadata = None\<rparr>"

definition app_params :: "string \<Rightarrow> ApplicationParams" where
  "app_params job =
     \<lparr>ap_jobId = job, ap_resumeId = None, ap_coverLetter = None, ap_answers = None,
      ap_notes = None\<rparr>"

definition resume_params :: "string \<Rightarrow> bool option \<Rightarrow> ResumeParams" where
  "resume_params name dflt =
     \<lparr>rp_name = name, rp_filePath = ''/path/to/resume.pdf'', rp_fileType = Pdf,
      rp_parsedData = None, rp_isDefault = dflt\<rparr>"

definition mk_email :: "string \<Rightarrow> string \<Rightarrow> string \<Rightarrow> EmailData" where
  "mk_email sender subject body =
     \<lparr>e_from = sender, e_subject = subject, e_body = body, e_gmailThreadId = None,
      e_gmailMessageId = None\<rparr>"

definition ex_store :: store where
  "ex_store =
     run [CreateJob (job_input ''Acme Corp'') ''job-1'' 1000,
          CreateApplication (app_params ''job-1'') ''app-1'' 2000] empty_store"

definition ex_app :: Application where
  "ex_app =
     \<lparr>a_id = ''app-1'', a_jobId = ''job-1'', a_status = A_pending, a_appliedAt = None,
      a_resumeId = None, a_coverLetter = None, a_answers = None, a_notes = None,
      a_lastActivityAt = 2000, a_createdAt = 2000, a_updatedAt = 2000\<rparr>"

definition ex_updates :: "store_op list" where
  "ex_updates =
     [UpdateApplicationStatus ''app-1'' A_submitted None ''h-1'' 3000,
      UpdateApplicationStatus ''app-1'' A_interview None ''h-2'' 4000,
      UpdateApplicationStatus ''app-1'' A_submitted None ''h-3'' 5000,
      UpdateApplicationStatus ''app-1'' A_rejected None ''h-4'' 6000]"

definition ex_resume_store :: store where
  "ex_resume_store =
     run [CreateResume (resume_params ''Resume 1'' (Some True)) ''r-1'' 1000,
          CreateResume (resume_params ''Resume 2'' None) ''r-2'' 2000] empty_store"

definition ex_resume_ops :: "store_op list" where
  "ex_resume_ops =
     [CreateResume (resume_params ''Resume 1'' (Some True)) ''r-1'' 1000,
      CreateResume (resume_params ''Resume 2'' (Some True)) ''r-2'' 2000,
      SetDefaultResume ''r-1'',
      CreateResume (resume_params ''Resume 3'' (Some False)) ''r-3'' 3000,
      SetDefaultResume ''r-3'']"

text \<open>Three jobs applied to through the apply tool (the application is submitted, the job
  marked applied); the first application then reaches an interview and the other two
  jobs are archived by hand.\<close>

definition ex_stats_store :: store where
  "ex_stats_store =
     run [CreateJob (job_input ''Acme Corp'') ''job-1'' 1000,
          CreateJob (job_input ''Initech'') ''job-2'' 1100,
          CreateJob (job_input ''Globex'') ''job-3'' 1200,
          CreateApplication (app_params ''job-1'') ''app-1'' 2000,
          UpdateApplicationStatus ''app-1'' A_submitted None ''h-1'' 2001,
          UpdateJobStatus ''job-1'' J_applied,
          CreateApplication (app_params ''job-2'') ''app-2'' 2100,
          UpdateApplicationStatus ''app-2'' A_submitted None ''h-2'' 2101,
          UpdateJobStatus ''job-2'' J_applied,
          CreateApplication (app_params ''job-3'') ''app-3'' 2200,
          UpdateApplicationStatus ''app-3'' A_submitted None ''h-3'' 2201,
          UpdateJobStatus ''job-3'' J_applied,
          UpdateApplicationStatus ''app-1'' A_interview None ''h-4'' 3000,
          UpdateJobStatus ''job-2'' J_archived,
          UpdateJobStatus ''job-3'' J_archived] empty_store"

text \<open>The same store after the second application is rejected.\<close>

definition ex_stats_store_rejected :: store where
  "ex_stats_store_rejected =
     run [UpdateApplicationStatus ''app-2'' A_rejected None ''h-5'' 4000] ex_stats_store"

text \<open>The state that the statistics test of the store builds: two jobs, an application
  to each, both submitted and then answered (one interview, one rejection); no job is
  marked applied.\<close>

definition ex_stats_test_store :: store where
  "ex_stats_test_store =
     run [CreateJob (job_input ''A'') ''job-1'' 1000,
          CreateJob (job_input ''B'') ''job-2'' 1100,
          CreateApplication (app_params ''job-1'') ''app-1'' 2000,
          UpdateApplicationStatus ''app-1'' A_submitted None ''h-1'' 2001,
          UpdateApplicationStatus ''app-1'' A_interview None ''h-2'' 2002,
          CreateApplication (app_params ''job-2'') ''app-2'' 2100,
          UpdateApplicationStatus ''app-2'' A_submitted None ''h-3'' 2101,
          UpdateApplicationStatus ''app-2'' A_rejected None ''h-4'' 2102] empty_store"

definition ex_timeline_store :: store where
  "ex_timeline_store =
     run [CreateJob (job_input ''Hooli'') ''job-1'' 1698800000000,
          CreateJob (job_input ''Initech'') ''job-2'' 1698800001000,
          CreateApplication (app_params ''job-1'') ''app-1'' 1698800002000,
          CreateApplication (app_params ''job-2'') ''app-2'' 1698800003000,
          UpdateApplicationStatus ''app-1'' A_submitted None ''h-1'' 1705312800000,
          UpdateApplicationStatus ''app-2'' A_submitted None ''h-2'' 1705316400000,
          CreateJob (job_input ''Acme Corp'') ''job-3'' 1705485600000,
          CreateJob (job_input ''Globex'') ''job-4'' 1705489200000,
          CreateJob (job_input ''Umbrella'') ''job-5'' 1705492800000] empty_store"

definition ex_acme_email :: EmailData where
  "ex_acme_email = mk_email ''hr@acmecorp.com'' ''Next steps for your application'' ''Hello''"

text \<open>An open application at Acme Corp, and an application at Acme Labs that has already
  reached an offer.\<close>

definition ex_email_store :: store where
  "ex_email_store =
     run [CreateJob (job_input ''Acme Corp'') ''job-1'' 1000,
          CreateApplication (app_params ''job-1'') ''app-1'' 2000,
          UpdateApplicationStatus ''app-1'' A_submitted None ''h-1'' 2001,
          UpdateJobStatus ''job-1'' J_applied,
          CreateJob (job_input ''Acme Labs'') ''job-2'' 3000,
          CreateApplication (app_params ''job-2'') ''app-2'' 4000,
          UpdateApplicationStatus ''app-2'' A_submitted None ''h-2'' 4001,
          UpdateJobStatus ''job-2'' J_applied,
          UpdateApplicationStatus ''app-2'' A_offer None ''h-3'' 5000] empty_store"

text \<open>A store with 101 submitted applications, one per job, numbered 0 to 100 in the order
  of their creation; the later an application was created, the longer ago it was last
  updated. The last one, \<^verbatim>\<open>app-0100\<close>, is at Acme Corp; the other hundred are at
  Initech.\<close>

definition ex_job :: "nat \<Rightarrow> Job" where
  "ex_job n =
     (job_input (if n = 100 then ''Acme Corp'' else ''Initech''))
       \<lparr>j_id := ''job-'' @ pad4 (int n), j_salaryCurrency := Some ''USD'',
         j_discoveredAt := 1000 + int n, j_status := J_applied\<rparr>"

definition ex_application :: "nat \<Rightarrow> Application" where
  "ex_application n =
     \<lparr>a_id = ''app-'' @ pad4 (int n), a_jobId = ''job-'' @ pad4 (int n),
      a_status = A_submitted, a_appliedAt = Some (3000 - int n), a_resumeId = None,
      a_coverLetter = None, a_answers = None, a_notes = None,
      a_lastActivityAt = 3000 - int n, a_createdAt = 1500 + int n,
      a_updatedAt = 3000 - int n\<rparr>"

definition ex_history :: "nat \<Rightarrow> ApplicationHistory" where
  "ex_history n =
     \<lparr>h_id = ''h-'' @ pad4 (int n), h_applicationId = ''app-'' @ pad4 (int n),
      h_oldStatus = Some A_pending, h_newStatus = A_submitted,
      h_changedAt = 3000 - int n, h_notes = None\<rparr>"

definition ex_full_store :: store where
  "ex_full_store =
     \<lparr>jobs = map ex_job [0..<101], applications = map ex_application [0..<101],
      email_threads = [], resumes = [], application_history = map ex_history [0..<101]\<rparr>"

section \<open>Properties\<close>

subsection \<open>Substring search\<close>

lemma starts_with_iff: "starts_with s w \<longleftrightarrow> (\<exists>post. s = w @ post)"
  by (induction s w rule: starts_with.induct) auto

lemma str_includes_iff: "str_includes s w \<longleftrightarrow> occurs_in w s"
proof (induction s)
  case Nil
  show ?case by (auto simp: occurs_in_def starts_with_iff)
next
  case (Cons d s)
  have "occurs_in w (d # s) \<longleftrightarrow> (\<exists>post. d # s = w @ post) \<or> occurs_in w s"
  proof
    assume "occurs_in w (d # s)"
    then obtain pre post where eq: "d # s = pre @ w @ post"
      by (auto simp: occurs_in_def)
    show "(\<exists>post. d # s = w @ post) \<or> occurs_in w s"
    proof (cases pre)
      case Nil
      with eq show ?thesis by auto
    next
      case (Cons p pre')
      with eq have "s = pre' @ w @ post" by simp
      then show ?thesis by (auto simp: occurs_in_def)
    qed
  next
    assume "(\<exists>post. d # s = w @ post) \<or> occurs_in w s"
    then show "occurs_in w (d # s)"
    proof
      assume "\<exists>post. d # s = w @ post"
      then obtain post where "d # s = [] @ w @ post" by auto
      then show ?thesis unfolding occurs_in_def by blast
    next
      assume "occurs_in w s"
      then obtain pre post where "s = pre @ w @ post" by (auto simp: occurs_in_def)
      then have "d # s = (d # pre) @ w @ post" by simp
      then show ?thesis unfolding occurs_in_def by blast
    qed
  qed
  with Cons show ?case by (simp add: starts_with_iff)
qed

lemma occurs_in_code [code]: "occurs_in w s = str_includes s w"
  by (simp add: str_includes_iff)

subsection \<open>Classification\<close>

text \<open>
  C4. \<^verbatim>\<open>classifyEmailResponse\<close> scans the lower-cased string made of the subject, one
  space and the body: it answers offer if an offer keyword occurs in it, else interview if
  an interview keyword occurs, else rejection if a rejection keyword occurs, else generic.
\<close>

theorem classify_priority:
  "classifyEmailResponse email =
     classify_content (toLowerCase (e_subject email @ '' '' @ e_body email))"
  by (simp add: classifyEmailResponse_def classify_content_def Let_def list_ex_iff
      str_includes_iff)

text \<open>An email with an offer keyword in the subject and rejection and interview keywords in
  the body is an offer: the priority decides, not the number or the place of the keywords.\<close>

theorem classify_priority_witness:
  "classifyEmailResponse
     (mk_email ''hr@acme.com'' ''Your Start Date''
        ''Unfortunately other candidates are not selected; next steps follow'') = RespOffer
   \<and> classify_content (toLowerCase (''Your Start Date'' @ '' '' @
        ''Unfortunately other candidates are not selected; next steps follow'')) = RespOffer"
proof -
  have "classifyEmailResponse
     (mk_email ''hr@acme.com'' ''Your Start Date''
        ''Unfortunately other candidates are not selected; next steps follow'') = RespOffer"
    by code_simp
  then show ?thesis
    using classify_priority [of "mk_email ''hr@acme.com'' ''Your Start Date''
        ''Unfortunately other candidates are not selected; next steps follow''"]
    by (simp add: mk_email_def)
qed

text \<open>The space matters: with subject \<^verbatim>\<open>job\<close> and body \<^verbatim>\<open>offer\<close> the code finds the
  keyword \<^verbatim>\<open>job offer\<close>, which does not occur in the plain concatenation
  \<^verbatim>\<open>joboffer\<close> of subject and body.\<close>

theorem classify_plain_concatenation_counterexample:
  "classifyEmailResponse (mk_email ''hr@acme.com'' ''job'' ''offer'') = RespOffer
   \<and> classify_content (toLowerCase (''job'' @ ''offer'')) = RespGeneric"
  by code_simp

subsection \<open>Tables\<close>

lemma map_key_sql_update:
  "(\<And>r. key (f r) = key r) \<Longrightarrow> map key (sql_update P f rows) = map key rows"
  by (induction rows) (auto simp: sql_update_def)

lemma find_sql_update:
  assumes "\<And>r. key (f r) = key r"
  shows "find (\<lambda>r. key r = i) (sql_update (\<lambda>r. key r = j) f rows) =
           (if i = j then map_option f (find (\<lambda>r. key r = i) rows)
            else find (\<lambda>r. key r = i) rows)"
  using assms by (induction rows) (auto simp: sql_update_def)

lemma getApplication_None: "ident \<notin> set (map a_id (applications s)) \<Longrightarrow> getApplication ident s = None"
  by (auto simp: getApplication_def find_None_iff)

lemma getApplication_Some_mem: "getApplication ident s = Some app \<Longrightarrow> app \<in> set (applications s) \<and> a_id app = ident"
  by (auto simp: getApplication_def find_Some_iff)

lemma run_Nil [simp]: "run [] s = s" by (simp add: run_def)
lemma run_Cons [simp]: "run (op # ops) s = run ops (exec op s)" by (simp add: run_def)

subsection \<open>Status updates of applications\<close>

text \<open>
  C9. For every id that names no application, \<^verbatim>\<open>updateApplicationStatus\<close> returns without
  raising and leaves the whole store, rows and history, as it was.
\<close>

theorem update_unknown_id_noop:
  "ident \<notin> set (map a_id (applications s)) \<Longrightarrow>
   updateApplicationStatus ident status notes historyId now s = (Inr (), s)"
  by (simp add: updateApplicationStatus_def getApplication_None)

theorem update_unknown_id_noop_witness:
  "''app-2'' \<notin> set (map a_id (applications ex_store)) \<and>
   updateApplicationStatus ''app-2'' A_submitted None ''h-1'' 3000 ex_store = (Inr (), ex_store)"
proof -
  have h: "''app-2'' \<notin> set (map a_id (applications ex_store))"
    by code_simp
  from h update_unknown_id_noop [OF h, of A_submitted None "''h-1''" 3000]
  show ?thesis by simp
qed

lemma history_createJob: "application_history (snd (createJob job ident now s)) = application_history s"
  by (simp add: createJob_def Let_def)
lemma history_updateJobStatus: "application_history (updateJobStatus ident st s) = application_history s"
  by (simp add: updateJobStatus_def)
lemma history_updateJob: "application_history (updateJob ident u s) = application_history s"
  by (simp add: updateJob_def)
lemma history_createApplication: "application_history (snd (createApplication params ident now s)) = application_history s"
  by (simp add: createApplication_def Let_def)
lemma history_createEmailThread: "application_history (snd (createEmailThread params ident now s)) = application_history s"
  by (simp add: createEmailThread_def Let_def)
lemma history_updateEmailThread: "application_history (updateEmailThread ident u s) = application_history s"
  by (simp add: updateEmailThread_def)
lemma history_createResume: "application_history (snd (createResume params ident now s)) = application_history s"
  by (simp add: createResume_def clearDefaults_def Let_def)
lemma history_setDefaultResume: "application_history (setDefaultResume ident s) = application_history s"
  by (simp add: setDefaultResume_def clearDefaults_def Let_def)
lemma history_deleteResume: "application_history (deleteResume ident s) = application_history s"
  by (simp add: deleteResume_def)

lemmas history_unchanged = history_createJob history_updateJobStatus history_updateJob
  history_createApplication history_createEmailThread history_updateEmailThread
  history_createResume history_setDefaultResume history_deleteResume

lemma update_existing:
  assumes "getApplication ident s = Some app"
  shows "updateApplicationStatus ident status notes historyId now s =
     insertHistory \<lparr>h_id = historyId, h_applicationId = ident, h_oldStatus = Some (a_status app),
                h_newStatus = status, h_changedAt = now, h_notes = notes\<rparr>
       (s\<lparr>applications := sql_update (\<lambda>a. a_id a = ident) (set_status_row status now) (applications s)\<rparr>)"
  using assms by (simp add: updateApplicationStatus_def Let_def)

lemma a_id_set_status_row [simp]: "a_id (set_status_row status now a) = a_id a"
  by (simp add: set_status_row_def)

lemma update_appends_history:
  assumes "getApplication ident s = Some app"
    and "historyId \<notin> set (map h_id (application_history s))"
  shows "updateApplicationStatus ident status notes historyId now s =
     (Inr (), s\<lparr>applications := sql_update (\<lambda>a. a_id a = ident) (set_status_row status now) (applications s),
          application_history := application_history s @
            [\<lparr>h_id = historyId, h_applicationId = ident, h_oldStatus = Some (a_status app),
                h_newStatus = status, h_changedAt = now, h_notes = notes\<rparr>]\<rparr>)"
proof -
  from assms(1) have "ident \<in> set (map a_id (applications s))"
    using getApplication_Some_mem by force
  then have "ident \<in> set (map a_id (sql_update (\<lambda>a. a_id a = ident) (set_status_row status now) (applications s)))"
    by (simp only: map_key_sql_update [of a_id, OF a_id_set_status_row])
  with assms show ?thesis
    by (simp add: update_existing insertHistory_def del: set_map)
qed

text \<open>
  C5. A call of \<^verbatim>\<open>updateApplicationStatus\<close> whose id names an application (and whose
  \<^verbatim>\<open>randomUUID()\<close> is not yet a key of the history table) returns normally and appends
  exactly one history record: its old status is the status the application had before
  the call, its new status the requested one. No other operation of the store changes the
  history table.
\<close>

theorem status_change_appends_one_history_record:
  "(getApplication ident s = Some app \<and> historyId \<notin> set (map h_id (application_history s)) \<longrightarrow>
      fst (updateApplicationStatus ident status notes historyId now s) = Inr () \<and>
      application_history (snd (updateApplicationStatus ident status notes historyId now s)) =
        application_history s @
          [\<lparr>h_id = historyId, h_applicationId = ident, h_oldStatus = Some (a_status app),
            h_newStatus = status, h_changedAt = now, h_notes = notes\<rparr>])
   \<and> ((\<forall>i st n h t. op \<noteq> UpdateApplicationStatus i st n h t) \<longrightarrow>
        application_history (exec op s') = application_history s')"
proof (intro conjI impI)
  assume a: "getApplication ident s = Some app \<and> historyId \<notin> set (map h_id (application_history s))"
  show "fst (updateApplicationStatus ident status notes historyId now s) = Inr ()"
    using a by (simp add: update_appends_history)
  show "application_history (snd (updateApplicationStatus ident status notes historyId now s)) =
        application_history s @
          [\<lparr>h_id = historyId, h_applicationId = ident, h_oldStatus = Some (a_status app),
            h_newStatus = status, h_changedAt = now, h_notes = notes\<rparr>]"
    using a by (simp add: update_appends_history)
next
  assume "\<forall>i st n h t. op \<noteq> UpdateApplicationStatus i st n h t"
  then show "application_history (exec op s') = application_history s'"
    by (cases op) (simp_all add: history_unchanged)
qed

theorem status_change_appends_one_history_record_witness:
  "getApplication ''app-1'' ex_store = Some ex_app \<and>
   application_history ex_store = [] \<and>
   application_history
     (snd (updateApplicationStatus ''app-1'' A_submitted (Some ''sent'') ''h-1'' 3000 ex_store)) =
     [\<lparr>h_id = ''h-1'', h_applicationId = ''app-1'', h_oldStatus = Some A_pending,
       h_newStatus = A_submitted, h_changedAt = 3000, h_notes = Some ''sent''\<rparr>] \<and>
   application_history (exec (CreateApplication (app_params ''job-1'') ''app-2'' 2500) ex_store) = []"
proof -
  have g: "getApplication ''app-1'' ex_store = Some ex_app"
    by code_simp
  have e: "application_history ex_store = []"
    by code_simp
  have st: "a_status ex_app = A_pending"
    by (simp add: ex_app_def)
  from status_change_appends_one_history_record
    [of "''app-1''" ex_store ex_app "''h-1''" A_submitted "Some ''sent''" 3000
       "CreateApplication (app_params ''job-1'') ''app-2'' 2500" ex_store]
    g e st
  show ?thesis by simp
qed

subsection \<open>The default resume\<close>

lemma count_clear: "sql_count r_isDefault (sql_update (\<lambda>r. True) (\<lambda>r. r\<lparr>r_isDefault := False\<rparr>) rs) = 0"
  by (induction rs) (auto simp: sql_update_def sql_count_def)

lemma sql_update_none: "(\<forall>r \<in> set rows. \<not> P r) \<Longrightarrow> sql_update P f rows = rows"
  by (induction rows) (auto simp: sql_update_def)

text \<open>
  C10. For every id that names no resume, \<^verbatim>\<open>setDefaultResume\<close> does what clearing every
  default flag does and no more: afterwards no resume is the default.
\<close>

theorem set_default_unknown_id_clears_all:
  assumes "ident \<notin> set (map r_id (resumes s))"
  shows "setDefaultResume ident s = clearDefaults s
         \<and> sql_count r_isDefault (resumes (setDefaultResume ident s)) = 0
         \<and> getDefaultResume (setDefaultResume ident s) = None"
proof -
  have ids: "map r_id (resumes (clearDefaults s)) = map r_id (resumes s)"
    by (simp add: clearDefaults_def map_key_sql_update)
  with assms have "\<forall>r \<in> set (resumes (clearDefaults s)). \<not> r_id r = ident"
    by (metis image_eqI set_map)
  then have eq: "setDefaultResume ident s = clearDefaults s"
    by (simp add: setDefaultResume_def Let_def sql_update_none)
  have c: "sql_count r_isDefault (resumes (clearDefaults s)) = 0"
    by (simp add: clearDefaults_def count_clear)
  then have "getDefaultResume (clearDefaults s) = None"
    by (auto simp: getDefaultResume_def find_None_iff sql_count_def filter_empty_conv)
  with eq c show ?thesis by simp
qed

theorem set_default_unknown_id_clears_all_witness:
  "''r-9'' \<notin> set (map r_id (resumes ex_resume_store)) \<and>
   map_option r_id (getDefaultResume ex_resume_store) = Some ''r-1'' \<and>
   getDefaultResume (setDefaultResume ''r-9'' ex_resume_store) = None \<and>
   sql_count r_isDefault (resumes (setDefaultResume ''r-9'' ex_resume_store)) = 0"
proof -
  have h: "''r-9'' \<notin> set (map r_id (resumes ex_resume_store))"
    by code_simp
  have d: "map_option r_id (getDefaultResume ex_resume_store) = Some ''r-1''"
    by code_simp
  from set_default_unknown_id_clears_all [OF h]
  have a: "getDefaultResume (setDefaultResume ''r-9'' ex_resume_store) = None"
    and b: "sql_count r_isDefault (resumes (setDefaultResume ''r-9'' ex_resume_store)) = 0"
    by blast+
  from h d a b show ?thesis by blast
qed

lemma resumes_createJob: "resumes (snd (createJob job ident now s)) = resumes s"
  by (simp add: createJob_def Let_def)
lemma resumes_updateJobStatus: "resumes (updateJobStatus ident st s) = resumes s"
  by (simp add: updateJobStatus_def)
lemma resumes_updateJob: "resumes (updateJob ident u s) = resumes s"
  by (simp add: updateJob_def)
lemma resumes_createApplication: "resumes (snd (createApplication params ident now s)) = resumes s"
  by (simp add: createApplication_def Let_def)
lemma resumes_insertHistory: "resumes (snd (insertHistory h s)) = resumes s"
  by (simp add: insertHistory_def)
lemma resumes_updateApplicationStatus: "resumes (snd (updateApplicationStatus ident st n h t s)) = resumes s"
  by (simp add: updateApplicationStatus_def Let_def resumes_insertHistory split: option.splits)
lemma resumes_createEmailThread: "resumes (snd (createEmailThread params ident now s)) = resumes s"
  by (simp add: createEmailThread_def Let_def)
lemma resumes_updateEmailThread: "resumes (updateEmailThread ident u s) = resumes s"
  by (simp add: updateEmailThread_def)

lemmas resumes_unchanged = resumes_createJob resumes_updateJobStatus resumes_updateJob
  resumes_createApplication resumes_updateApplicationStatus resumes_createEmailThread
  resumes_updateEmailThread

lemma count_set_one:
  "distinct (map r_id rs) \<Longrightarrow> sql_count r_isDefault rs = 0 \<Longrightarrow>
   sql_count r_isDefault (sql_update (\<lambda>r. r_id r = i) (\<lambda>r. r\<lparr>r_isDefault := True\<rparr>) rs) \<le> 1"
proof (induction rs)
  case Nil
  then show ?case by (simp add: sql_update_def sql_count_def)
next
  case (Cons r rs)
  from Cons.prems have d: "distinct (map r_id rs)" and z: "sql_count r_isDefault rs = 0"
    and nd: "\<not> r_isDefault r" and fresh: "r_id r \<notin> set (map r_id rs)"
    by (auto simp: sql_count_def split: if_splits)
  show ?case
  proof (cases "r_id r = i")
    case True
    with fresh have "\<forall>x \<in> set rs. \<not> r_id x = i" by (auto simp: image_iff)
    then have "sql_update (\<lambda>r. r_id r = i) (\<lambda>r. r\<lparr>r_isDefault := True\<rparr>) rs = rs"
      by (rule sql_update_none)
    with z True show ?thesis by (simp add: sql_update_def sql_count_def)
  next
    case False
    with Cons.IH [OF d z] nd show ?thesis by (simp add: sql_update_def sql_count_def)
  qed
qed

lemma inv_clearDefaults: "distinct (map r_id (resumes s)) \<Longrightarrow> resume_inv (clearDefaults s)"
  by (simp add: resume_inv_def clearDefaults_def map_key_sql_update count_clear)

lemma inv_setDefaultResume:
  assumes "resume_inv s" shows "resume_inv (setDefaultResume ident s)"
proof -
  from assms have d: "distinct (map r_id (resumes s))" by (simp add: resume_inv_def)
  let ?c = "sql_update (\<lambda>r. True) (\<lambda>r. r\<lparr>r_isDefault := False\<rparr>) (resumes s)"
  have dc: "distinct (map r_id ?c)" using d by (simp add: map_key_sql_update)
  have "sql_count r_isDefault (sql_update (\<lambda>r. r_id r = ident) (\<lambda>r. r\<lparr>r_isDefault := True\<rparr>) ?c) \<le> 1"
    by (rule count_set_one [OF dc count_clear])
  moreover have "distinct (map r_id (sql_update (\<lambda>r. r_id r = ident) (\<lambda>r. r\<lparr>r_isDefault := True\<rparr>) ?c))"
    using dc by (simp add: map_key_sql_update)
  ultimately show ?thesis
    by (simp add: resume_inv_def setDefaultResume_def clearDefaults_def Let_def)
qed

lemma inv_createResume:
  assumes "resume_inv s" shows "resume_inv (snd (createResume params ident now s))"
proof (cases "rp_isDefault params = Some True")
  case True
  from assms have "distinct (map r_id (resumes s))" by (simp add: resume_inv_def)
  then have c: "resume_inv (clearDefaults s)" by (rule inv_clearDefaults)
  have z: "sql_count r_isDefault (resumes (clearDefaults s)) = 0"
    by (simp add: clearDefaults_def count_clear)
  with c True show ?thesis
    by (auto simp: createResume_def Let_def resume_inv_def sql_count_def)
next
  case False
  then have "rp_isDefault params = None \<or> rp_isDefault params = Some False" by (cases "rp_isDefault params") auto
  with assms show ?thesis
    by (auto simp: createResume_def Let_def resume_inv_def sql_count_def)
qed

lemma count_filter_le: "length (filter P (filter Q xs)) \<le> length (filter P xs)"
  by (induction xs) auto

lemma inv_deleteResume:
  assumes "resume_inv s" shows "resume_inv (deleteResume ident s)"
proof -
  have "length (filter r_isDefault (filter (\<lambda>r. r_id r \<noteq> ident) (resumes s)))
        \<le> length (filter r_isDefault (resumes s))"
    by (rule count_filter_le)
  with assms show ?thesis
    by (simp add: resume_inv_def deleteResume_def sql_count_def distinct_map_filter)
qed

lemma inv_exec: "resume_inv s \<Longrightarrow> resume_inv (exec op s)"
  by (cases op)
    (simp_all add: inv_createResume inv_setDefaultResume inv_deleteResume,
     simp_all add: resume_inv_def resumes_unchanged)

lemma inv_run: "resume_inv s \<Longrightarrow> resume_inv (run ops s)"
  by (induction ops arbitrary: s) (simp_all add: inv_exec)

lemma inv_empty: "resume_inv empty_store"
  by (simp add: resume_inv_def empty_store_def sql_count_def)

text \<open>
  C6. After any sequence of operations of the store, \<^verbatim>\<open>createResume\<close> and
  \<^verbatim>\<open>setDefaultResume\<close> among them, run one after the other from the empty database, at
  most one resume is the default.
\<close>

theorem at_most_one_default_resume:
  "sql_count r_isDefault (resumes (run ops empty_store)) \<le> 1"
  using inv_run [OF inv_empty, of ops] by (simp add: resume_inv_def)

theorem at_most_one_default_resume_witness:
  "sql_count r_isDefault (resumes (run ex_resume_ops empty_store)) \<le> 1 \<and>
   map r_id (filter r_isDefault (resumes (run ex_resume_ops empty_store))) = [''r-3'']"
proof -
  have "map r_id (filter r_isDefault (resumes (run ex_resume_ops empty_store))) = [''r-3'']"
    by code_simp
  with at_most_one_default_resume [of ex_resume_ops] show ?thesis by simp
qed

subsection \<open>The submission time\<close>

lemma applications_createJob: "applications (snd (createJob job ident now s)) = applications s"
  by (simp add: createJob_def Let_def)
lemma applications_updateJobStatus: "applications (updateJobStatus ident st s) = applications s"
  by (simp add: updateJobStatus_def)
lemma applications_updateJob: "applications (updateJob ident u s) = applications s"
  by (simp add: updateJob_def)
lemma applications_insertHistory: "applications (snd (insertHistory h s)) = applications s"
  by (simp add: insertHistory_def)
lemma applications_createEmailThread: "applications (snd (createEmailThread params ident now s)) = applications s"
  by (simp add: createEmailThread_def Let_def)
lemma applications_updateEmailThread: "applications (updateEmailThread ident u s) = applications s"
  by (simp add: updateEmailThread_def)
lemma applications_createResume: "applications (snd (createResume params ident now s)) = applications s"
  by (simp add: createResume_def clearDefaults_def Let_def)
lemma applications_setDefaultResume: "applications (setDefaultResume ident s) = applications s"
  by (simp add: setDefaultResume_def clearDefaults_def Let_def)
lemma applications_deleteResume: "applications (deleteResume ident s) = applications s"
  by (simp add: deleteResume_def)

lemmas applications_unchanged = applications_createJob applications_updateJobStatus
  applications_updateJob applications_createEmailThread applications_updateEmailThread
  applications_createResume applications_setDefaultResume applications_deleteResume

lemma find_append_Some: "find P xs = Some x \<Longrightarrow> find P (xs @ ys) = Some x"
  by (induction xs) (auto split: if_splits)

lemma getApplication_createApplication:
  "getApplication ident s = Some app \<Longrightarrow>
   getApplication ident (snd (createApplication params i now s)) = Some app"
  by (simp add: createApplication_def Let_def getApplication_def find_append_Some)

lemma applications_updateApplicationStatus:
  "applications (snd (updateApplicationStatus i st n h now s)) =
     (case getApplication i s of None \<Rightarrow> applications s
      | Some _ \<Rightarrow> sql_update (\<lambda>a. a_id a = i) (set_status_row st now) (applications s))"
  by (simp add: updateApplicationStatus_def Let_def applications_insertHistory split: option.splits)

lemma getApplication_updateApplicationStatus:
  assumes "getApplication ident s = Some app"
  shows "getApplication ident (snd (updateApplicationStatus i st n h now s)) =
           Some (if i = ident then set_status_row st now app else app)"
proof (cases "getApplication i s")
  case None
  with assms have "i \<noteq> ident" by auto
  with None assms show ?thesis
    by (simp add: updateApplicationStatus_def)
next
  case (Some a)
  have "getApplication ident (snd (updateApplicationStatus i st n h now s)) =
        find (\<lambda>a. a_id a = ident) (sql_update (\<lambda>a. a_id a = i) (set_status_row st now) (applications s))"
    using Some by (simp add: getApplication_def applications_updateApplicationStatus)
  also have "\<dots> = (if ident = i then map_option (set_status_row st now) (find (\<lambda>a. a_id a = ident) (applications s))
            else find (\<lambda>a. a_id a = ident) (applications s))"
    by (rule find_sql_update) simp
  finally show ?thesis using assms by (auto simp: getApplication_def)
qed

lemma coalesce_None [simp]: "coalesce x None = x"
  by (cases x) (simp_all add: coalesce_def)

lemma coalesce_assoc: "coalesce (coalesce x y) z = coalesce x (coalesce y z)"
  by (cases x) (simp_all add: coalesce_def)

lemma first_submitted_Cons:
  "first_submitted ident (op # ops) = coalesce (first_submitted ident [op]) (first_submitted ident ops)"
  by (cases op) (simp_all add: coalesce_def)

lemma exec_keeps_application:
  assumes "getApplication ident s = Some app"
  shows "\<exists>app'. getApplication ident (exec op s) = Some app' \<and>
           a_appliedAt app' = coalesce (a_appliedAt app) (first_submitted ident [op])"
proof (cases op)
  case (CreateApplication params i now)
  with assms show ?thesis by (simp add: getApplication_createApplication)
next
  case (UpdateApplicationStatus i st n h now)
  with assms show ?thesis
    by (simp add: getApplication_updateApplicationStatus set_status_row_def)
qed (use assms in \<open>simp_all add: getApplication_def applications_unchanged\<close>)

text \<open>
  C2. For an application that exists, whatever operations of the store run afterwards:
  an \<^verbatim>\<open>applied_at\<close> that is set stays as it is, and one that is not set (as in a new
  application) becomes the clock value of the first \<^verbatim>\<open>updateApplicationStatus\<close> call that
  sets this application to \<^verbatim>\<open>submitted\<close>; no later call, a second submission
  included, overwrites it.
\<close>

theorem applied_at_set_once:
  assumes "getApplication ident s = Some app"
  shows "appliedAt_of ident (run ops s) = coalesce (a_appliedAt app) (first_submitted ident ops)"
  using assms
proof (induction ops arbitrary: s app)
  case Nil
  then show ?case by (simp add: appliedAt_of_def)
next
  case (Cons op ops)
  from exec_keeps_application [OF Cons.prems, of op] obtain app' where
    g: "getApplication ident (exec op s) = Some app'" and
    a: "a_appliedAt app' = coalesce (a_appliedAt app) (first_submitted ident [op])"
    by blast
  from Cons.IH [OF g] have "appliedAt_of ident (run (op # ops) s)
       = coalesce (a_appliedAt app') (first_submitted ident ops)" by simp
  also have "\<dots> = coalesce (a_appliedAt app) (first_submitted ident (op # ops))"
    by (simp only: a coalesce_assoc first_submitted_Cons [of ident op ops])
  finally show ?case .
qed

theorem applied_at_set_once_witness:
  "getApplication ''app-1'' ex_store = Some ex_app \<and>
   a_appliedAt ex_app = None \<and>
   appliedAt_of ''app-1'' (run ex_updates ex_store) = Some 3000 \<and>
   map_option a_status (getApplication ''app-1'' (run ex_updates ex_store)) = Some A_rejected"
proof -
  have g: "getApplication ''app-1'' ex_store = Some ex_app"
    by code_simp
  have n: "a_appliedAt ex_app = None"
    by (simp add: ex_app_def)
  have f: "first_submitted ''app-1'' ex_updates = Some 3000"
    by code_simp
  have r: "map_option a_status (getApplication ''app-1'' (run ex_updates ex_store)) = Some A_rejected"
    by code_simp
  from applied_at_set_once [OF g, of ex_updates] g n f r show ?thesis
    by (simp add: coalesce_def)
qed

subsection \<open>The response rate\<close>

text \<open>What \<^verbatim>\<open>formatStats\<close> computes from the counters of \<^verbatim>\<open>getStats\<close>: the divisor
  is the counter \<^verbatim>\<open>appliedJobs\<close>, read from the table of jobs, and no rate is computed
  when it is zero.\<close>

lemma responseRate_getStats:
  "responseRate (getStats s) =
     rate_over (sql_count (\<lambda>j. j_status j = J_applied) (jobs s)) s"
  by (simp add: responseRate_def getStats_def rate_over_def)

lemma responseRate_guard: "responseRate stats = None \<longleftrightarrow> appliedJobs stats = 0"
  by (simp add: responseRate_def)

text \<open>
  C8, at three stores. \<^verbatim>\<open>formatStats\<close> prints \<^verbatim>\<open>stats.appliedJobs\<close> under the label
  "Applications Submitted" and divides by it, but \<^verbatim>\<open>getStats\<close> counts the jobs whose
  status is \<^verbatim>\<open>applied\<close>, not the applications. After three submissions, one interview
  and two of the jobs archived, the code reports one submitted application and a rate of
  100 percent, where the quotient over the submitted applications is 50 percent (two
  applications in status \<^verbatim>\<open>submitted\<close>) or 33.3 percent (three with \<^verbatim>\<open>applied_at\<close>
  set); after one more rejection it reports 200 percent. In the state of the store's own
  statistics test, two applications submitted and both answered, it reports no rate at
  all, where the quotient is 100 percent.
\<close>

theorem response_rate_divides_by_applied_jobs:
  "appliedJobs (getStats ex_stats_store) = 1
   \<and> responseRate (getStats ex_stats_store) = Some 100
   \<and> submitted_by_status ex_stats_store = 2
   \<and> rate_over (submitted_by_status ex_stats_store) ex_stats_store = Some 50
   \<and> submitted_by_appliedAt ex_stats_store = 3
   \<and> rate_over (submitted_by_appliedAt ex_stats_store) ex_stats_store = Some (100 / 3)
   \<and> responseRate (getStats ex_stats_store_rejected) = Some 200
   \<and> appliedJobs (getStats ex_stats_test_store) = 0
   \<and> responseRate (getStats ex_stats_test_store) = None
   \<and> submitted_by_appliedAt ex_stats_test_store = 2
   \<and> rate_over (submitted_by_appliedAt ex_stats_test_store) ex_stats_test_store = Some 100"
  by code_simp

subsection \<open>The timeline\<close>

text \<open>The date of a timestamp, at the epoch and on two leap days.\<close>

lemma sql_date_examples:
  "sql_date 0 = ''1970-01-01'' \<and> sql_date 951782400000 = ''2000-02-29''
   \<and> sql_date 1709251199999 = ''2024-02-29'' \<and> sql_date 1709251200000 = ''2024-03-01''"
  by code_simp

lemma map_of_replace:
  "map_of (map (\<lambda>kv. if fst kv = k then (k, v) else kv) m) x =
     (if x = k then map_option (\<lambda>_. v) (map_of m k) else map_of m x)"
  by (induction m) auto

lemma map_of_map_set: "map_of (map_set k v m) = (map_of m)(k \<mapsto> v)"
proof (cases "map_of m k")
  case None
  then show ?thesis
    by (auto simp: map_set_def map_add_def fun_eq_iff split: option.splits)
next
  case (Some w)
  then show ?thesis
    by (simp add: map_set_def map_of_replace fun_eq_iff)
qed

lemma keys_map_set:
  "map fst (map_set k v m) = (if k \<in> set (map fst m) then map fst m else map fst m @ [k])"
proof (cases "map_of m k")
  case None
  then have "k \<notin> set (map fst m)"
    by (simp add: map_of_eq_None_iff)
  then show ?thesis
    unfolding map_set_def None by simp
next
  case (Some w)
  then have "k \<in> set (map fst m)"
    by (metis map_of_eq_None_iff option.distinct(1) set_map)
  moreover have "map fst (map (\<lambda>kv. if fst kv = k then (k, v) else kv) m) = map fst m"
    by (induction m) auto
  ultimately show ?thesis
    unfolding map_set_def Some by simp
qed

lemma distinct_map_set: "distinct (map fst m) \<Longrightarrow> distinct (map fst (map_set k v m))"
  by (simp add: keys_map_set)

lemma set_keys_map_set: "fst ` set (map_set k v m) = insert k (fst ` set m)"
proof -
  have "set (map fst (map_set k v m)) = insert k (set (map fst m))"
    by (auto simp: keys_map_set)
  then show ?thesis by simp
qed

lemma fold_rows:
  assumes "distinct (map fst tm)" and "distinct (map fst rows)"
  shows "distinct (map fst (foldl (\<lambda>t row. map_set (fst row) (g (map_of t (fst row)) row) t) tm rows))
       \<and> set (map fst (foldl (\<lambda>t row. map_set (fst row) (g (map_of t (fst row)) row) t) tm rows))
           = set (map fst tm) \<union> set (map fst rows)
       \<and> (\<forall>d. map_of (foldl (\<lambda>t row. map_set (fst row) (g (map_of t (fst row)) row) t) tm rows) d
             = (case map_of rows d of None \<Rightarrow> map_of tm d
                | Some c \<Rightarrow> Some (g (map_of tm d) (d, c))))"
  using assms
proof (induction rows arbitrary: tm)
  case Nil
  then show ?case by simp
next
  case (Cons r rows)
  let ?t = "map_set (fst r) (g (map_of tm (fst r)) r) tm"
  from Cons.prems have d1: "distinct (map fst ?t)" and d2: "distinct (map fst rows)"
    and fresh: "fst r \<notin> set (map fst rows)"
    by (simp_all add: distinct_map_set)
  note IH = Cons.IH [OF d1 d2]
  have none: "map_of rows (fst r) = None"
    using fresh by (simp add: map_of_eq_None_iff)
  have "\<And>d. (case map_of rows d of None \<Rightarrow> map_of ?t d | Some c \<Rightarrow> Some (g (map_of ?t d) (d, c)))
        = (case map_of (r # rows) d of None \<Rightarrow> map_of tm d
           | Some c \<Rightarrow> Some (g (map_of tm d) (d, c)))"
  proof -
    fix d
    show "(case map_of rows d of None \<Rightarrow> map_of ?t d | Some c \<Rightarrow> Some (g (map_of ?t d) (d, c)))
        = (case map_of (r # rows) d of None \<Rightarrow> map_of tm d
           | Some c \<Rightarrow> Some (g (map_of tm d) (d, c)))"
    proof (cases "d = fst r")
      case True
      then have "r = (d, snd r)" by simp
      with True none show ?thesis
        by (cases r) (simp add: map_of_map_set)
    next
      case False
      then show ?thesis
        by (cases r) (auto simp: map_of_map_set split: option.splits)
    qed
  qed
  with IH show ?case
    by (auto simp: set_keys_map_set)
qed

lemma keys_group_by_date: "map fst (group_by_date ds) = sort (remdups ds)"
  by (simp add: group_by_date_def comp_def)

lemma map_of_group_by_date:
  "map_of (group_by_date ds) d =
     (if d \<in> set ds then Some (sql_count (\<lambda>x. x = d) ds) else None)"
proof -
  have "map_of (map (\<lambda>d. (d, sql_count (\<lambda>x. x = d) ds)) xs) d =
          (if d \<in> set xs then Some (sql_count (\<lambda>x. x = d) ds) else None)" for xs
    by (induction xs) auto
  then show ?thesis by (simp add: group_by_date_def)
qed

lemma sql_count_absent: "d \<notin> set ds \<Longrightarrow> sql_count (\<lambda>x. x = d) ds = 0"
  by (induction ds) (auto simp: sql_count_def)

lemma timeline_rows:
  fixes start s
  defines "t2 \<equiv> foldl add_apps_row (foldl add_jobs_row [] (jobsPerDay start s)) (appsPerDay start s)"
  shows "distinct (map fst t2)"
    and "set (map fst t2) = set (job_dates start s) \<union> set (app_dates start s)"
    and "\<And>d e. (d, e) \<in> set t2 \<Longrightarrow> e = timeline_entry start s d"
proof -
  let ?J = "jobsPerDay start s" and ?A = "appsPerDay start s"
  let ?t1 = "foldl add_jobs_row [] ?J"
  have J: "?J = group_by_date (job_dates start s)"
    by (simp add: jobsPerDay_def job_dates_def)
  have A: "?A = group_by_date (app_dates start s)"
    by (simp add: appsPerDay_def app_dates_def)
  have dJ: "distinct (map fst ?J)" and dA: "distinct (map fst ?A)"
    by (simp_all add: J A keys_group_by_date)
  define gj where "gj = (\<lambda>(old :: TimelineEntry option) (row :: string \<times> nat).
      \<lparr>tl_date = fst row, jobsDiscovered = snd row, applicationsSubmitted = 0,
       responsesReceived = 0\<rparr>)"
  define ga where "ga = (\<lambda>(old :: TimelineEntry option) (row :: string \<times> nat).
      case old of Some existing \<Rightarrow> existing\<lparr>applicationsSubmitted := snd row\<rparr>
      | None \<Rightarrow> \<lparr>tl_date = fst row, jobsDiscovered = 0, applicationsSubmitted = snd row,
          responsesReceived = 0\<rparr>)"
  have ej: "add_jobs_row = (\<lambda>t row. map_set (fst row) (gj (map_of t (fst row)) row) t)"
    by (simp add: fun_eq_iff add_jobs_row_def gj_def)
  have ea: "add_apps_row = (\<lambda>t row. map_set (fst row) (ga (map_of t (fst row)) row) t)"
    by (auto simp: fun_eq_iff add_apps_row_def ga_def split: option.splits)
  have r1: "distinct (map fst ?t1)
       \<and> set (map fst ?t1) = set (map fst []) \<union> set (map fst ?J)
       \<and> (\<forall>d. map_of ?t1 d = (case map_of ?J d of None \<Rightarrow> map_of [] d
             | Some c \<Rightarrow> Some (gj (map_of [] d) (d, c))))"
    unfolding ej using fold_rows [where g = gj and tm = "[]" and rows = ?J] dJ by simp
  then have f1: "distinct (map fst ?t1)"
       "set (map fst ?t1) = set (map fst ?J)"
       "\<And>d. map_of ?t1 d = (case map_of ?J d of None \<Rightarrow> None
           | Some c \<Rightarrow> Some \<lparr>tl_date = d, jobsDiscovered = c, applicationsSubmitted = 0,
               responsesReceived = 0\<rparr>)"
    by (simp_all add: gj_def split: option.splits)
  have r2: "distinct (map fst t2)
       \<and> set (map fst t2) = set (map fst ?t1) \<union> set (map fst ?A)
       \<and> (\<forall>d. map_of t2 d = (case map_of ?A d of None \<Rightarrow> map_of ?t1 d
             | Some c \<Rightarrow> Some (ga (map_of ?t1 d) (d, c))))"
    unfolding t2_def ea using fold_rows [where g = ga and tm = ?t1 and rows = ?A] f1(1) dA by simp
  then have f2: "distinct (map fst t2)"
       "set (map fst t2) = set (map fst ?t1) \<union> set (map fst ?A)"
       "\<And>d. map_of t2 d = (case map_of ?A d of None \<Rightarrow> map_of ?t1 d
           | Some c \<Rightarrow> Some (case map_of ?t1 d of
                Some existing \<Rightarrow> existing\<lparr>applicationsSubmitted := c\<rparr>
              | None \<Rightarrow> \<lparr>tl_date = d, jobsDiscovered = 0, applicationsSubmitted = c,
                  responsesReceived = 0\<rparr>))"
    by (simp_all add: ga_def split: option.splits)
  show "distinct (map fst t2)" by (rule f2(1))
  have "set (map fst t2) = set (map fst ?J) \<union> set (map fst ?A)"
    by (simp only: f2(2) f1(2))
  also have "\<dots> = set (job_dates start s) \<union> set (app_dates start s)"
    by (simp only: J A keys_group_by_date set_sort set_remdups)
  finally show "set (map fst t2) = set (job_dates start s) \<union> set (app_dates start s)" .
  fix d e
  assume "(d, e) \<in> set t2"
  with f2(1) have "map_of t2 d = Some e" by simp
  moreover have m1: "map_of ?t1 d =
      (if d \<in> set (job_dates start s)
       then Some \<lparr>tl_date = d, jobsDiscovered = sql_count (\<lambda>x. x = d) (job_dates start s),
                  applicationsSubmitted = 0, responsesReceived = 0\<rparr>
       else None)"
    unfolding f1(3) by (simp add: J map_of_group_by_date)
  moreover have "map_of t2 d =
      (if d \<in> set (app_dates start s)
       then Some (case map_of ?t1 d of
                Some existing \<Rightarrow>
                  existing\<lparr>applicationsSubmitted := sql_count (\<lambda>x. x = d) (app_dates start s)\<rparr>
              | None \<Rightarrow> \<lparr>tl_date = d, jobsDiscovered = 0,
                  applicationsSubmitted = sql_count (\<lambda>x. x = d) (app_dates start s),
                  responsesReceived = 0\<rparr>)
       else map_of ?t1 d)"
    unfolding f2(3) by (simp add: A map_of_group_by_date)
  ultimately show "e = timeline_entry start s d"
    by (auto simp: timeline_entry_def sql_count_absent split: if_splits)
qed

lemma distinct_map_insort_key:
  "distinct (map f (insort_key f x xs)) \<longleftrightarrow> f x \<notin> f ` set xs \<and> distinct (map f xs)"
  by (induction xs) (auto simp: set_insort_key)

lemma distinct_map_sort_key: "distinct (map f (sort_key f xs)) = distinct (map f xs)"
  by (induction xs) (simp_all add: distinct_map_insort_key)

lemma sort_key_distinct_unique:
  assumes "distinct (map f xs)" and "\<And>x. x \<in> set xs \<Longrightarrow> x = g (f x)"
    and "sorted ks" and "distinct ks" and "set ks = f ` set xs"
  shows "sort_key f xs = map g ks"
proof -
  have "distinct (map f (sort_key f xs))"
    using assms(1) by (simp add: distinct_map_sort_key)
  moreover have "sorted (map f (sort_key f xs))" by simp
  moreover have "set (map f (sort_key f xs)) = set ks" using assms(5) by simp
  ultimately have k: "map f (sort_key f xs) = ks"
    using assms(3,4) by (metis sorted_distinct_set_unique)
  have "map (\<lambda>x. g (f x)) (sort_key f xs) = sort_key f xs"
    by (rule map_idI) (use assms(2) in auto)
  then have "map g (map f (sort_key f xs)) = sort_key f xs"
    by (simp add: comp_def)
  with k show ?thesis by simp
qed

text \<open>
  C7. \<^verbatim>\<open>getTimeline\<close> returns exactly one entry for every date on which a job was
  discovered or an application submitted within the window (the window starts the given
  number of days, 30 by default, before now), in ascending order of the date strings; the
  entry of a date carries the number of jobs discovered that day, the number of
  applications submitted that day (0 when there is none) and \<open>responsesReceived = 0\<close>.
\<close>

theorem getTimeline_entries:
  "getTimeline days_arg now s =
     map (timeline_entry (window_start days_arg now) s)
       (sort (remdups (job_dates (window_start days_arg now) s
                       @ app_dates (window_start days_arg now) s)))
   \<and> sorted (map tl_date (getTimeline days_arg now s))
   \<and> distinct (map tl_date (getTimeline days_arg now s))"
proof -
  let ?start = "window_start days_arg now"
  let ?t2 = "foldl add_apps_row (foldl add_jobs_row [] (jobsPerDay ?start s)) (appsPerDay ?start s)"
  let ?ks = "sort (remdups (job_dates ?start s @ app_dates ?start s))"
  have g: "getTimeline days_arg now s = sort_key tl_date (map snd ?t2)"
    by (simp add: getTimeline_def window_start_def Let_def)
  have ent: "\<And>x. x \<in> set (map snd ?t2) \<Longrightarrow> x = timeline_entry ?start s (tl_date x)"
  proof -
    fix x assume "x \<in> set (map snd ?t2)"
    then obtain d where m: "(d, x) \<in> set ?t2" by auto
    from timeline_rows(3) [OF m] have "x = timeline_entry ?start s d" .
    moreover from this have "tl_date x = d" by (simp add: timeline_entry_def)
    ultimately show "x = timeline_entry ?start s (tl_date x)" by simp
  qed
  have dates: "map tl_date (map snd ?t2) = map fst ?t2"
  proof -
    have "\<And>p. p \<in> set ?t2 \<Longrightarrow> tl_date (snd p) = fst p"
    proof -
      fix p assume p: "p \<in> set ?t2"
      then have "(fst p, snd p) \<in> set ?t2" by simp
      from timeline_rows(3) [OF this] show "tl_date (snd p) = fst p"
        by (simp add: timeline_entry_def)
    qed
    then show ?thesis by simp
  qed
  have d: "distinct (map tl_date (map snd ?t2))"
    by (simp only: dates timeline_rows(1))
  have ks: "set ?ks = tl_date ` set (map snd ?t2)"
    using timeline_rows(2) [of ?start s] dates
    by (metis set_append set_map set_remdups set_sort)
  have eq: "sort_key tl_date (map snd ?t2) = map (timeline_entry ?start s) ?ks"
    by (rule sort_key_distinct_unique [OF d ent _ _ ks]) simp_all
  have m: "map tl_date (map (timeline_entry ?start s) ?ks) = ?ks"
    by (simp add: comp_def timeline_entry_def)
  show ?thesis
    unfolding g eq m by simp
qed

text \<open>Two applications submitted on 2024-01-15 (for jobs discovered before the window) and
  three jobs discovered on 2024-01-17, seen on 2024-01-20 with the default window: two
  entries, each with the other counter at 0, the earlier date first although the map
  received it last.\<close>

theorem getTimeline_entries_witness:
  "getTimeline None 1705708800000 ex_timeline_store =
     [\<lparr>tl_date = ''2024-01-15'', jobsDiscovered = 0, applicationsSubmitted = 2,
        responsesReceived = 0\<rparr>,
      \<lparr>tl_date = ''2024-01-17'', jobsDiscovered = 3, applicationsSubmitted = 0,
        responsesReceived = 0\<rparr>]
   \<and> sorted (map tl_date (getTimeline None 1705708800000 ex_timeline_store))
   \<and> distinct (map tl_date (getTimeline None 1705708800000 ex_timeline_store))"
proof -
  have "getTimeline None 1705708800000 ex_timeline_store =
     [\<lparr>tl_date = ''2024-01-15'', jobsDiscovered = 0, applicationsSubmitted = 2,
        responsesReceived = 0\<rparr>,
      \<lparr>tl_date = ''2024-01-17'', jobsDiscovered = 3, applicationsSubmitted = 0,
        responsesReceived = 0\<rparr>]"
    by code_simp
  with getTimeline_entries [of None 1705708800000 ex_timeline_store] show ?thesis
    by blast
qed

subsection \<open>Matching and the transition policy\<close>

lemma set_sql_limit_offset: "set (sql_limit_offset l off xs) \<subseteq> set xs"
  by (auto simp: sql_limit_offset_def Let_def dest: in_set_dropD in_set_takeD)

lemma set_listApplications:
  "set (listApplications \<lparr>la_status = Some st, la_limit = lm, la_offset = off\<rparr> s)
     \<subseteq> {a \<in> set (applications s). a_status a = st}"
  by (auto simp: listApplications_def Let_def dest: set_sql_limit_offset [THEN subsetD])

lemma matchLoop_Some:
  "matchLoop s email apps = Some m \<Longrightarrow>
   \<exists>app \<in> set apps. m = \<lparr>m_applicationId = a_id app, m_jobId = a_jobId app,
                            m_currentStatus = a_status app\<rparr>
     \<and> (\<exists>job. getJob (a_jobId app) s = Some job \<and> matchesJob job email)"
  by (induction apps) (auto split: option.splits if_splits)

lemma match_is_candidate:
  assumes "matchEmailToApplication s email = Some m"
  shows "\<exists>app \<in> set (applications s).
           m = \<lparr>m_applicationId = a_id app, m_jobId = a_jobId app, m_currentStatus = a_status app\<rparr>
           \<and> (a_status app = A_submitted \<or> a_status app = A_interview)"
proof -
  let ?sub = "listApplications \<lparr>la_status = Some A_submitted, la_limit = None, la_offset = None\<rparr> s"
  let ?int = "listApplications \<lparr>la_status = Some A_interview, la_limit = None, la_offset = None\<rparr> s"
  from assms have "matchLoop s email (?sub @ ?int) = Some m"
    by (simp add: matchEmailToApplication_def Let_def)
  from matchLoop_Some [OF this] obtain app where
    app: "app \<in> set ?sub \<union> set ?int"
    and m: "m = \<lparr>m_applicationId = a_id app, m_jobId = a_jobId app, m_currentStatus = a_status app\<rparr>"
    by auto
  from app set_listApplications [of A_submitted None None s]
    set_listApplications [of A_interview None None s]
  have "app \<in> set (applications s) \<and> (a_status app = A_submitted \<or> a_status app = A_interview)"
    by auto
  with m show ?thesis by blast
qed

lemma find_distinct_key:
  "distinct (map key xs) \<Longrightarrow> x \<in> set xs \<Longrightarrow> find (\<lambda>y. key y = key x) xs = Some x"
  by (induction xs) (auto simp: image_iff)

lemma getApplication_distinct:
  "distinct (map a_id (applications s)) \<Longrightarrow> app \<in> set (applications s) \<Longrightarrow>
   getApplication (a_id app) s = Some app"
  unfolding getApplication_def by (rule find_distinct_key)

lemma applications_upsertThreadStep:
  "applications (snd (upsertThreadStep m email rt threadId now2 s)) = applications s"
  by (auto simp: upsertThreadStep_def Let_def updateEmailThread_def createEmailThread_def
      split: option.splits prod.splits sum.splits if_splits)

lemma history_upsertThreadStep:
  "application_history (snd (upsertThreadStep m email rt threadId now2 s)) = application_history s"
  by (auto simp: upsertThreadStep_def Let_def updateEmailThread_def createEmailThread_def
      split: option.splits prod.splits sum.splits if_splits)

lemma processEmail_tables:
  assumes "matchEmailToApplication s email = Some m"
  shows "applications (snd (processEmailNotification email historyId now1 threadId now2 s)) =
           applications (snd (updateStatusStep m (classifyEmailResponse email) historyId now1 s))"
    and "application_history (snd (processEmailNotification email historyId now1 threadId now2 s)) =
           application_history (snd (updateStatusStep m (classifyEmailResponse email) historyId now1 s))"
  using assms
  by (auto simp: processEmailNotification_def Let_def applications_upsertThreadStep
      history_upsertThreadStep split: prod.splits sum.splits)

lemma policy_eq:
  "transition_policy rt cur = (case responseTypeToStatus rt cur of Some st \<Rightarrow> st | None \<Rightarrow> cur)"
  by (cases rt) auto

lemma updateStatusStep_unchanged:
  "transition_policy rt (m_currentStatus m) = m_currentStatus m \<Longrightarrow>
   updateStatusStep m rt historyId now1 s = (Inr (), s)"
  by (auto simp: updateStatusStep_def Let_def policy_eq split: option.splits)

lemma updateStatusStep_status:
  assumes "getApplication ident s = Some app"
  shows "\<exists>app'. getApplication ident (snd (updateStatusStep m rt historyId now1 s)) = Some app'
          \<and> a_status app' =
              (if m_applicationId m = ident \<and> transition_policy rt (m_currentStatus m) \<noteq> m_currentStatus m
               then transition_policy rt (m_currentStatus m) else a_status app)"
  using assms
  by (auto simp: updateStatusStep_def Let_def policy_eq getApplication_updateApplicationStatus
      set_status_row_def split: option.splits)

text \<open>
  C1. When an inbound email matches an application (whose stored status is then the
  matched current status), the application's status afterwards is what the transition
  policy gives for the classification: offer, interview unless already interview or
  offer, rejected, or viewed if the status was submitted. When the policy does not change
  the status, neither the applications nor the history change. An application whose
  status is offer keeps that status whatever email is processed.
\<close>

theorem email_transition_policy:
  assumes "distinct (map a_id (applications s))"
  shows "(\<forall>m. matchEmailToApplication s email = Some m \<longrightarrow>
            status_of (m_applicationId m) s = Some (m_currentStatus m)
          \<and> status_of (m_applicationId m)
               (snd (processEmailNotification email historyId now1 threadId now2 s))
              = Some (transition_policy (classifyEmailResponse email) (m_currentStatus m))
          \<and> (transition_policy (classifyEmailResponse email) (m_currentStatus m)
                = m_currentStatus m \<longrightarrow>
              applications (snd (processEmailNotification email historyId now1 threadId now2 s))
                = applications s
              \<and> application_history
                  (snd (processEmailNotification email historyId now1 threadId now2 s))
                = application_history s))
       \<and> (\<forall>a \<in> set (applications s). a_status a = A_offer \<longrightarrow>
            status_of (a_id a) (snd (processEmailNotification email historyId now1 threadId now2 s))
              = Some A_offer)"
proof (intro conjI allI impI ballI)
  fix m
  assume match: "matchEmailToApplication s email = Some m"
  let ?s' = "snd (processEmailNotification email historyId now1 threadId now2 s)"
  let ?u = "snd (updateStatusStep m (classifyEmailResponse email) historyId now1 s)"
  from match_is_candidate [OF match] obtain app where
    app: "app \<in> set (applications s)"
    and m: "m = \<lparr>m_applicationId = a_id app, m_jobId = a_jobId app, m_currentStatus = a_status app\<rparr>"
    by blast
  from getApplication_distinct [OF assms app] m
  have g: "getApplication (m_applicationId m) s = Some app" by simp
  with m show "status_of (m_applicationId m) s = Some (m_currentStatus m)"
    by (simp add: status_of_def)
  from updateStatusStep_status [OF g, of m "classifyEmailResponse email" historyId now1] m
  have "status_of (m_applicationId m) ?u
          = Some (transition_policy (classifyEmailResponse email) (m_currentStatus m))"
    by (auto simp: status_of_def)
  then show "status_of (m_applicationId m) ?s'
          = Some (transition_policy (classifyEmailResponse email) (m_currentStatus m))"
    by (simp add: status_of_def getApplication_def processEmail_tables(1) [OF match])
  assume same: "transition_policy (classifyEmailResponse email) (m_currentStatus m) = m_currentStatus m"
  show "applications ?s' = applications s"
    by (simp add: processEmail_tables(1) [OF match] updateStatusStep_unchanged [OF same])
  show "application_history ?s' = application_history s"
    by (simp add: processEmail_tables(2) [OF match] updateStatusStep_unchanged [OF same])
next
  fix a
  assume a: "a \<in> set (applications s)" and offer: "a_status a = A_offer"
  let ?s' = "snd (processEmailNotification email historyId now1 threadId now2 s)"
  have ga: "getApplication (a_id a) s = Some a"
    by (rule getApplication_distinct [OF assms a])
  show "status_of (a_id a) ?s' = Some A_offer"
  proof (cases "matchEmailToApplication s email")
    case None
    then have "?s' = s" by (simp add: processEmailNotification_def)
    with ga offer show ?thesis by (simp add: status_of_def)
  next
    case (Some m)
    from match_is_candidate [OF Some] obtain app where
      app: "app \<in> set (applications s)"
      and m: "m = \<lparr>m_applicationId = a_id app, m_jobId = a_jobId app, m_currentStatus = a_status app\<rparr>"
      and st: "a_status app = A_submitted \<or> a_status app = A_interview"
      by blast
    from st offer have "app \<noteq> a" by auto
    with assms app a have "a_id app \<noteq> a_id a"
      by (meson distinct_map inj_onD)
    with m have ne: "m_applicationId m \<noteq> a_id a" by simp
    from updateStatusStep_status [OF ga, of m "classifyEmailResponse email" historyId now1] ne offer
    have "status_of (a_id a) (snd (updateStatusStep m (classifyEmailResponse email) historyId now1 s))
            = Some A_offer"
      by (auto simp: status_of_def)
    then show ?thesis
      by (simp add: status_of_def getApplication_def processEmail_tables(1) [OF Some])
  qed
qed

text \<open>The end-to-end example of the prose: the mail from \<^verbatim>\<open>hr@acmecorp.com\<close> with the
  subject \<^verbatim>\<open>Next steps for your application\<close> matches the submitted application at Acme
  Corp, is an interview, and moves that application to interview; the application that
  holds an offer stays at offer.\<close>

theorem email_transition_policy_witness:
  "distinct (map a_id (applications ex_email_store))
   \<and> matchEmailToApplication ex_email_store ex_acme_email =
       Some \<lparr>m_applicationId = ''app-1'', m_jobId = ''job-1'', m_currentStatus = A_submitted\<rparr>
   \<and> classifyEmailResponse ex_acme_email = RespInterview
   \<and> status_of ''app-1''
        (snd (processEmailNotification ex_acme_email ''h-9'' 9000 ''t-1'' 9001 ex_email_store))
       = Some A_interview
   \<and> status_of ''app-2'' ex_email_store = Some A_offer
   \<and> status_of ''app-2''
        (snd (processEmailNotification ex_acme_email ''h-9'' 9000 ''t-1'' 9001 ex_email_store))
       = Some A_offer"
proof -
  let ?s' = "snd (processEmailNotification ex_acme_email ''h-9'' 9000 ''t-1'' 9001 ex_email_store)"
  have d: "distinct (map a_id (applications ex_email_store))"
    by code_simp
  have m: "matchEmailToApplication ex_email_store ex_acme_email =
       Some \<lparr>m_applicationId = ''app-1'', m_jobId = ''job-1'', m_currentStatus = A_submitted\<rparr>"
    by code_simp
  have c: "classifyEmailResponse ex_acme_email = RespInterview"
    by code_simp
  have o: "status_of ''app-2'' ex_email_store = Some A_offer"
    by code_simp
  then obtain a where a: "getApplication ''app-2'' ex_email_store = Some a" "a_status a = A_offer"
    by (auto simp: status_of_def)
  then have mem: "a \<in> set (applications ex_email_store)" and ida: "a_id a = ''app-2''"
    using getApplication_Some_mem by blast+
  note t = email_transition_policy [OF d, of ex_acme_email "''h-9''" 9000 "''t-1''" 9001]
  from t m c have "status_of ''app-1'' ?s' = Some A_interview"
    by fastforce
  moreover from t mem a(2) ida have "status_of ''app-2'' ?s' = Some A_offer"
    by fastforce
  ultimately show ?thesis using d m c o by blast
qed

subsection \<open>Matching\<close>

lemma no_match_no_change:
  "matchEmailToApplication s email = None \<Longrightarrow>
   processEmailNotification email historyId now1 threadId now2 s = (Inr (), s)"
  by (simp add: processEmailNotification_def)

lemma matchLoop_first:
  "matchLoop s email apps =
     map_option (\<lambda>app. \<lparr>m_applicationId = a_id app, m_jobId = a_jobId app,
                           m_currentStatus = a_status app\<rparr>)
       (find (\<lambda>app. case getJob (a_jobId app) s of None \<Rightarrow> False
                     | Some job \<Rightarrow> matchesJob job email) apps)"
  by (induction apps) (auto split: option.splits)

lemma candidates_within_limit:
  assumes "sql_count (\<lambda>a. a_status a = st) (applications s) \<le> 100"
  shows "set (listApplications \<lparr>la_status = Some st, la_limit = None, la_offset = None\<rparr> s)
           = {a \<in> set (applications s). a_status a = st}"
proof -
  have "length (sort_key (\<lambda>a. - a_updatedAt a) (filter (\<lambda>a. a_status a = st) (applications s)))
          \<le> 100"
    using assms by (simp add: sql_count_def)
  then show ?thesis
    by (auto simp: listApplications_def Let_def sql_limit_offset_def)
qed


text \<open>The test of the loop body is the match of the prose.\<close>

lemma of_char_lower_char:
  "(of_char (lower_char c) :: nat) =
     (if (65 \<le> (of_char c :: nat) \<and> (of_char c :: nat) \<le> 90)
         \<or> (192 \<le> (of_char c :: nat) \<and> (of_char c :: nat) \<le> 222 \<and> (of_char c :: nat) \<noteq> 215)
      then of_char c + 32 else of_char c)"
  by (auto simp: lower_char_def Let_def)

lemma is_space_lower_char [simp]: "is_space (lower_char c) = is_space c"
  unfolding is_space_def of_char_lower_char by auto

lemma lower_char_eq_at [simp]: "lower_char c = CHR ''@'' \<longleftrightarrow> c = CHR ''@''"
proof -
  have "lower_char c = CHR ''@'' \<longleftrightarrow> (of_char (lower_char c) :: nat) = of_char (CHR ''@'')"
    by (simp only: of_char_eq_iff)
  also have "\<dots> \<longleftrightarrow> (of_char c :: nat) = of_char (CHR ''@'')"
    unfolding of_char_lower_char by auto
  also have "\<dots> \<longleftrightarrow> c = CHR ''@''"
    by (simp only: of_char_eq_iff)
  finally show ?thesis .
qed

lemma lower_char_eq_dot [simp]: "lower_char c = CHR ''.'' \<longleftrightarrow> c = CHR ''.''"
proof -
  have "lower_char c = CHR ''.'' \<longleftrightarrow> (of_char (lower_char c) :: nat) = of_char (CHR ''.'')"
    by (simp only: of_char_eq_iff)
  also have "\<dots> \<longleftrightarrow> (of_char c :: nat) = of_char (CHR ''.'')"
    unfolding of_char_lower_char by auto
  also have "\<dots> \<longleftrightarrow> c = CHR ''.''"
    by (simp only: of_char_eq_iff)
  finally show ?thesis .
qed

lemma split_ws_from_lower:
  "split_ws_from (map lower_char w) sep (map lower_char s) =
     map (map lower_char) (split_ws_from w sep s)"
proof (induction s arbitrary: w sep)
  case Nil
  show ?case by (simp add: rev_map)
next
  case (Cons a s)
  from Cons [of "a # w" False] Cons [of "[]" True] Cons [of w True]
  show ?case by (simp add: rev_map)
qed

lemma split_ws_lower: "split_ws (toLowerCase s) = map toLowerCase (split_ws s)"
  using split_ws_from_lower [of "[]" False s]
  by (simp add: split_ws_def toLowerCase_def [abs_def])

lemma split_char_from_lower:
  assumes "\<And>c. lower_char c = sep \<longleftrightarrow> c = sep"
  shows "split_char_from sep (map lower_char w) (map lower_char s) =
     map (map lower_char) (split_char_from sep w s)"
proof (induction s arbitrary: w)
  case Nil
  show ?case by (simp add: rev_map)
next
  case (Cons a s)
  from Cons [of "a # w"] Cons [of "[]"] assms
  show ?case by (simp add: rev_map)
qed

lemma senderDomainOf_lower:
  "senderDomainOf (toLowerCase s) = map_option toLowerCase (senderDomainOf s)"
proof -
  have at: "split_char (CHR ''@'') (toLowerCase s) = map toLowerCase (split_char (CHR ''@'') s)"
    using split_char_from_lower [of "CHR ''@''" "[]" s]
    by (simp add: split_char_def toLowerCase_def [abs_def])
  have dot: "split_char (CHR ''.'') (toLowerCase d) = map toLowerCase (split_char (CHR ''.'') d)" for d
    using split_char_from_lower [of "CHR ''.''" "[]" d]
    by (simp add: split_char_def toLowerCase_def [abs_def])
  show ?thesis
    unfolding senderDomainOf_def at
    by (auto simp: dot split: list.splits)
qed

lemma matchesJob_iff: "matchesJob job email \<longleftrightarrow> company_matches (j_company job) email"
proof -
  have len: "length (toLowerCase w) = length w" for w
    by (simp add: toLowerCase_def)
  show ?thesis
    unfolding matchesJob_def company_matches_def Let_def split_ws_lower senderDomainOf_lower
    by (auto simp: list_ex_iff len ci_occurs_def str_includes_iff split: option.splits)
qed

text \<open>The store with 101 submitted applications.\<close>

lemma digit_char_inj: "digit_char a = digit_char b \<Longrightarrow> a mod 10 = b mod 10"
proof -
  have d: "distinct ''0123456789''" by simp
  assume "digit_char a = digit_char b"
  then have "''0123456789'' ! (a mod 10) = ''0123456789'' ! (b mod 10)"
    by (simp add: digit_char_def)
  with d show ?thesis
    by (simp add: nth_eq_iff_index_eq)
qed

lemma four_digits:
  fixes n :: nat
  assumes "n < 10000"
  shows "n = 1000 * (n div 1000 mod 10) + 100 * (n div 100 mod 10) + 10 * (n div 10 mod 10)
             + n mod 10"
proof -
  have e100: "n div 100 = n div 10 div 10"
    using div_mult2_eq [of n 10 10] by simp
  have e1000: "n div 1000 = n div 10 div 10 div 10"
    using div_mult2_eq [of n 100 10] e100 by simp
  have 1: "n = 10 * (n div 10) + n mod 10"
    by simp
  have 2: "n div 10 = 10 * (n div 10 div 10) + n div 10 mod 10"
    by simp
  have 3: "n div 10 div 10 = 10 * (n div 10 div 10 div 10) + n div 10 div 10 mod 10"
    by simp
  have "n div 1000 < 10"
    using assms by (simp add: div_less_iff_less_mult)
  then have 4: "n div 10 div 10 div 10 mod 10 = n div 10 div 10 div 10"
    by (simp add: e1000)
  have "n = 1000 * (n div 10 div 10 div 10 mod 10) + 100 * (n div 10 div 10 mod 10)
            + 10 * (n div 10 mod 10) + n mod 10"
    using 1 2 3 4 by linarith
  then show ?thesis
    by (simp only: e100 e1000)
qed

lemma pad4_inj:
  assumes "pad4 (int a) = pad4 (int b)" and "a < 10000" and "b < 10000"
  shows "a = b"
proof -
  from assms(1) have "digit_char (a div 1000) = digit_char (b div 1000)"
    "digit_char (a div 100) = digit_char (b div 100)"
    "digit_char (a div 10) = digit_char (b div 10)" "digit_char a = digit_char b"
    by (simp_all add: pad4_def)
  then have "a div 1000 mod 10 = b div 1000 mod 10" "a div 100 mod 10 = b div 100 mod 10"
    "a div 10 mod 10 = b div 10 mod 10" "a mod 10 = b mod 10"
    by (auto dest: digit_char_inj)
  with four_digits [OF assms(2)] four_digits [OF assms(3)] show ?thesis
    by simp
qed

lemma listApplications_sorted:
  assumes "sorted (map (\<lambda>a. - a_updatedAt a) (filter (\<lambda>a. a_status a = st) (applications s)))"
  shows "listApplications \<lparr>la_status = Some st, la_limit = None, la_offset = None\<rparr> s
           = take 100 (filter (\<lambda>a. a_status a = st) (applications s))"
  using assms by (simp add: listApplications_def sql_limit_offset_def sort_key_id_if_sorted)

lemma sorted_map_upt: "(\<And>i j. i \<le> j \<Longrightarrow> f i \<le> f j) \<Longrightarrow> sorted (map f [0..<n])"
  by (induction n) (auto simp: sorted_append)

lemma ex_submitted: "filter (\<lambda>a. a_status a = A_submitted) (applications ex_full_store)
    = map ex_application [0..<101]"
  by (simp add: ex_full_store_def ex_application_def filter_map comp_def)

lemma ex_interview: "filter (\<lambda>a. a_status a = A_interview) (applications ex_full_store) = []"
  by (simp add: ex_full_store_def ex_application_def filter_map comp_def)

lemma ex_candidates:
  "listApplications \<lparr>la_status = Some A_submitted, la_limit = None, la_offset = None\<rparr> ex_full_store
     @ listApplications \<lparr>la_status = Some A_interview, la_limit = None, la_offset = None\<rparr> ex_full_store
   = map ex_application [0..<100]"
proof -
  have "sorted (map (\<lambda>a. - a_updatedAt a) (map ex_application [0..<101]))"
    unfolding map_map comp_def by (rule sorted_map_upt) (simp add: ex_application_def)
  then have "listApplications \<lparr>la_status = Some A_submitted, la_limit = None, la_offset = None\<rparr>
        ex_full_store = take 100 (map ex_application [0..<101])"
    by (simp add: listApplications_sorted ex_submitted)
  moreover have "listApplications \<lparr>la_status = Some A_interview, la_limit = None, la_offset = None\<rparr>
        ex_full_store = []"
    by (simp add: listApplications_sorted ex_interview)
  ultimately show ?thesis by (simp add: take_map)
qed

lemma ex_getJob:
  "n < 101 \<Longrightarrow> getJob (a_jobId (ex_application n)) ex_full_store = Some (ex_job n)"
proof -
  assume n: "n < 101"
  have "distinct (map j_id (jobs ex_full_store))"
    by (auto simp: ex_full_store_def ex_job_def distinct_map comp_def inj_on_def dest: pad4_inj)
  moreover have "ex_job n \<in> set (jobs ex_full_store)"
    using n by (simp add: ex_full_store_def)
  ultimately have "find (\<lambda>j. j_id j = j_id (ex_job n)) (jobs ex_full_store) = Some (ex_job n)"
    by (rule find_distinct_key)
  then show ?thesis by (simp add: getJob_def ex_job_def ex_application_def)
qed

lemma ex_getApplication:
  "n < 101 \<Longrightarrow> getApplication (a_id (ex_application n)) ex_full_store = Some (ex_application n)"
proof -
  assume n: "n < 101"
  have "distinct (map a_id (applications ex_full_store))"
    by (auto simp: ex_full_store_def ex_application_def distinct_map comp_def inj_on_def
        dest: pad4_inj)
  moreover have "ex_application n \<in> set (applications ex_full_store)"
    using n by (simp add: ex_full_store_def)
  ultimately show ?thesis
    by (rule getApplication_distinct)
qed

lemma ex_initech_no_match: "n \<noteq> 100 \<Longrightarrow> \<not> matchesJob (ex_job n) ex_acme_email"
proof -
  assume "n \<noteq> 100"
  then have "j_company (ex_job n) = ''Initech''" by (simp add: ex_job_def job_input_def)
  moreover have "\<not> matchesJob (job_input ''Initech'') ex_acme_email" by code_simp
  ultimately show ?thesis by (simp add: matchesJob_def job_input_def)
qed

lemma ex_acme_match: "matchesJob (ex_job 100) ex_acme_email"
proof -
  have "j_company (ex_job 100) = ''Acme Corp''" by (simp add: ex_job_def job_input_def)
  moreover have "matchesJob (job_input ''Acme Corp'') ex_acme_email" by code_simp
  ultimately show ?thesis by (simp add: matchesJob_def job_input_def)
qed

text \<open>
  C3, at a store with more than 100 submitted applications: \<^verbatim>\<open>listApplications\<close> is called
  without a limit and returns its default page of 100 rows, the most recently updated
  ones. The submitted application \<^verbatim>\<open>app-0100\<close> is in the store, its job matches the mail,
  and no other job does; yet \<^verbatim>\<open>matchEmailToApplication\<close> answers that nothing matches.
\<close>

theorem match_misses_candidate_beyond_limit:
  "matchEmailToApplication ex_full_store ex_acme_email = None
   \<and> sql_count (\<lambda>a. a_status a = A_submitted) (applications ex_full_store) = 101
   \<and> getApplication ''app-0100'' ex_full_store = Some (ex_application 100)
   \<and> a_status (ex_application 100) = A_submitted
   \<and> getJob (a_jobId (ex_application 100)) ex_full_store = Some (ex_job 100)
   \<and> matchesJob (ex_job 100) ex_acme_email"
proof -
  have "find (\<lambda>app. case getJob (a_jobId app) ex_full_store of None \<Rightarrow> False
                    | Some job \<Rightarrow> matchesJob job ex_acme_email) (map ex_application [0..<100])
          = None"
    by (auto simp: find_None_iff ex_getJob ex_initech_no_match)
  then have "matchEmailToApplication ex_full_store ex_acme_email = None"
    by (simp add: matchEmailToApplication_def Let_def ex_candidates matchLoop_first)
  moreover have "sql_count (\<lambda>a. a_status a = A_submitted) (applications ex_full_store) = 101"
    by (simp add: sql_count_def ex_submitted)
  moreover have "getApplication ''app-0100'' ex_full_store = Some (ex_application 100)"
    using ex_getApplication [of 100] by (simp add: ex_application_def pad4_def digit_char_def)
  moreover have "a_status (ex_application 100) = A_submitted"
    by (simp add: ex_application_def)
  moreover have "getJob (a_jobId (ex_application 100)) ex_full_store = Some (ex_job 100)"
    by (simp add: ex_getJob)
  ultimately show ?thesis
    using ex_acme_match by blast
qed

subsection \<open>Reachable stores\<close>

text \<open>The primary key of the applications table: in every store that the operations
  build from the empty database the application ids are distinct.\<close>

lemma applications_pk_exec:
  assumes "distinct (map a_id (applications s))"
  shows "distinct (map a_id (applications (exec op s)))"
proof (cases op)
  case (CreateApplication params i now)
  with assms show ?thesis by (simp add: createApplication_def Let_def)
next
  case (UpdateApplicationStatus i st n h now)
  with assms show ?thesis
    by (simp add: applications_updateApplicationStatus map_key_sql_update split: option.splits)
qed (use assms in \<open>simp_all add: applications_unchanged\<close>)

lemma applications_pk_run:
  "distinct (map a_id (applications s)) \<Longrightarrow> distinct (map a_id (applications (run ops s)))"
  by (induction ops arbitrary: s) (simp_all add: applications_pk_exec)

lemma applications_pk_reachable: "distinct (map a_id (applications (run ops empty_store)))"
  by (rule applications_pk_run) (simp add: empty_store_def)

text \<open>Processing an email changes the store by operations of the store only: what holds
  after every sequence of store operations holds after every sequence of processed
  emails and store operations.\<close>

lemma run_append: "run (xs @ ys) s = run ys (run xs s)"
  by (simp add: run_def)

lemma updateStatusStep_run: "\<exists>ops. snd (updateStatusStep m rt historyId now1 s) = run ops s"
proof (cases "updateStatusStep m rt historyId now1 s = (Inr (), s)")
  case True
  then have "snd (updateStatusStep m rt historyId now1 s) = run [] s" by simp
  then show ?thesis by blast
next
  case False
  then obtain st where
    "updateStatusStep m rt historyId now1 s =
       updateApplicationStatus (m_applicationId m) st
         (Some (''Email response classified as: '' @ responseTypeName rt)) historyId now1 s"
    by (auto simp: updateStatusStep_def Let_def split: option.splits if_splits)
  then have "snd (updateStatusStep m rt historyId now1 s) =
      run [UpdateApplicationStatus (m_applicationId m) st
             (Some (''Email response classified as: '' @ responseTypeName rt)) historyId now1] s"
    by simp
  then show ?thesis by blast
qed

lemma upsertThreadStep_run: "\<exists>ops. snd (upsertThreadStep m email rt threadId now2 s) = run ops s"
proof -
  define existing where "existing =
    (case e_gmailThreadId email of None \<Rightarrow> None
     | Some g \<Rightarrow> if g = [] then None else getEmailThreadByGmailId g s)"
  define params where "params =
    \<lparr>tp_applicationId = m_applicationId m, tp_gmailThreadId = e_gmailThreadId email,
     tp_subject = e_subject email, tp_fromEmail = e_from email\<rparr>"
  show ?thesis
  proof (cases existing)
    case None
    obtain r s2 where c: "createEmailThread params threadId now2 s = (r, s2)"
      by (cases "createEmailThread params threadId now2 s")
    have "snd (upsertThreadStep m email rt threadId now2 s) = s2"
      using None c unfolding upsertThreadStep_def existing_def params_def Let_def
      by (cases r) simp_all
    with c have "snd (upsertThreadStep m email rt threadId now2 s)
        = run [CreateEmailThread params threadId now2] s"
      by simp
    then show ?thesis by blast
  next
    case (Some thread)
    have "snd (upsertThreadStep m email rt threadId now2 s) =
        run [UpdateEmailThread (t_id thread)
               \<lparr>tu_status = Some (if rt = RespInterview then T_awaiting_response else T_active),
                tu_messageCount = Some (t_messageCount thread + 1),
                tu_lastMessageAt = Some now2\<rparr>] s"
      using Some unfolding upsertThreadStep_def existing_def Let_def by simp
    then show ?thesis by blast
  qed
qed

lemma processEmail_run:
  "\<exists>ops. snd (processEmailNotification email historyId now1 threadId now2 s) = run ops s"
proof (cases "matchEmailToApplication s email")
  case None
  then have "snd (processEmailNotification email historyId now1 threadId now2 s) = run [] s"
    by (simp add: processEmailNotification_def)
  then show ?thesis by blast
next
  case (Some m)
  let ?rt = "classifyEmailResponse email"
  obtain r s1 where u: "updateStatusStep m ?rt historyId now1 s = (r, s1)"
    by (cases "updateStatusStep m ?rt historyId now1 s")
  from updateStatusStep_run [of m ?rt historyId now1 s] u obtain ops1 where
    o1: "s1 = run ops1 s" by auto
  show ?thesis
  proof (cases r)
    case (Inl err)
    with Some u have "snd (processEmailNotification email historyId now1 threadId now2 s) = s1"
      by (simp add: processEmailNotification_def)
    with o1 show ?thesis by blast
  next
    case (Inr x)
    with Some u have "snd (processEmailNotification email historyId now1 threadId now2 s)
        = snd (upsertThreadStep m email ?rt threadId now2 s1)"
      by (simp add: processEmailNotification_def)
    moreover from upsertThreadStep_run [of m email ?rt threadId now2 s1] obtain ops2 where
      "snd (upsertThreadStep m email ?rt threadId now2 s1) = run ops2 s1" by blast
    ultimately have "snd (processEmailNotification email historyId now1 threadId now2 s)
        = run (ops1 @ ops2) s"
      by (simp add: o1 run_append)
    then show ?thesis by blast
  qed
qed

end
